theory Spec2Isabelle
  imports Complex_Main
begin

section \<open>Davidson subspace eigensolvers of \<^verbatim>\<open>future/tddft/davidson.py\<close>\<close>

text \<open>
  The two solvers \<^verbatim>\<open>dgeev\<close> and \<^verbatim>\<open>eig\<close> and the selector \<^verbatim>\<open>pickeig\<close> are embedded as
  total functions. Conventions of the embedding:
  \<^item> a one-dimensional numpy array of floats is a list of reals; arithmetic is exact real
    arithmetic, rounding is not modelled;
  \<^item> every Python exception is a value of \<open>error\<close> on the left of a sum;
  \<^item> where numpy would divide by a zero norm (and go on with inf or nan entries, which
    have no counterpart among the reals) the model stops with \<open>NonFinite\<close>;
  \<^item> the collaborators (operator, preconditioner, dense eigensolver, selector, inner
    product) are parameters: pure, total functions of their arguments;
  \<^item> the counts \<^verbatim>\<open>nroots\<close>, \<^verbatim>\<open>max_cycle\<close> and \<^verbatim>\<open>max_space\<close> are natural numbers.
\<close>

subsection \<open>Errors and sequencing\<close>

datatype error =
    IndexError
  | ValueError
  | UnboundLocalError
  | ZeroDivisionError
  | LinAlgError
  | AssertionError
  | CallbackRaised
  | NonFinite

definition bindE :: "error + 'a \<Rightarrow> ('a \<Rightarrow> error + 'b) \<Rightarrow> error + 'b" where
  "bindE m f = (case m of Inl err \<Rightarrow> Inl err | Inr a \<Rightarrow> f a)"

text \<open>\<^verbatim>\<open>for x in xs: body\<close>, the body updating a state and possibly raising.\<close>

fun forM :: "'a list \<Rightarrow> ('a \<Rightarrow> 's \<Rightarrow> error + 's) \<Rightarrow> 's \<Rightarrow> error + 's" where
  "forM [] f s = Inr s"
| "forM (x # xs) f s = bindE (f x s) (forM xs f)"

text \<open>Python indexing \<^verbatim>\<open>xs[i]\<close> of a sequence: negative indices count from the end.\<close>

definition py_get :: "'a list \<Rightarrow> int \<Rightarrow> error + 'a" where
  "py_get xs i =
     (if 0 \<le> i \<and> i < int (length xs) then Inr (xs ! nat i)
      else if i < 0 \<and> - int (length xs) \<le> i then Inr (xs ! nat (int (length xs) + i))
      else Inl IndexError)"

subsection \<open>Vector arithmetic\<close>

type_synonym vec = "real list"

definition dotl :: "vec \<Rightarrow> vec \<Rightarrow> real" where
  "dotl x y = sum_list (map2 (*) x y)"

text \<open>\<^verbatim>\<open>numpy.dot\<close> of two one-dimensional arrays: the sizes must agree.\<close>

definition numpy_dot :: "vec \<Rightarrow> vec \<Rightarrow> error + real" where
  "numpy_dot x y = (if length x = length y then Inr (dotl x y) else Inl ValueError)"

text \<open>
  Modelled from the spec: \<^verbatim>\<open>pyscf.lib.numpy_helper.norm\<close> is not among the sources; the
  spec lists the norm among the external vector-arithmetic primitives. It is the
  Euclidean norm.
\<close>

definition numpy_helper_norm :: "vec \<Rightarrow> real" where
  "numpy_helper_norm x = sqrt (dotl x x)"

text \<open>\<^verbatim>\<open>x * c\<close> and \<^verbatim>\<open>x / c\<close> for an array and a scalar.\<close>

definition vscale :: "vec \<Rightarrow> real \<Rightarrow> vec" where
  "vscale x c = map (\<lambda>a. a * c) x"

definition vdiv :: "vec \<Rightarrow> real \<Rightarrow> vec" where
  "vdiv x c = map (\<lambda>a. a / c) x"

text \<open>
  Elementwise binary operations broadcast as numpy does for one-dimensional arrays:
  equal sizes, or one operand of size one. The in-place forms \<^verbatim>\<open>x -= y\<close> and \<^verbatim>\<open>x += y\<close>
  keep the shape of \<open>x\<close>, so only \<open>y\<close> may be stretched.
\<close>

definition np_binop :: "(real \<Rightarrow> real \<Rightarrow> real) \<Rightarrow> vec \<Rightarrow> vec \<Rightarrow> error + vec" where
  "np_binop f x y =
     (if length x = length y then Inr (map2 f x y)
      else if length y = 1 then Inr (map (\<lambda>a. f a (hd y)) x)
      else if length x = 1 then Inr (map (\<lambda>b. f (hd x) b) y)
      else Inl ValueError)"

definition np_inplace :: "(real \<Rightarrow> real \<Rightarrow> real) \<Rightarrow> vec \<Rightarrow> vec \<Rightarrow> error + vec" where
  "np_inplace f x y =
     (if length x = length y then Inr (map2 f x y)
      else if length y = 1 then Inr (map (\<lambda>a. f a (hd y)) x)
      else Inl ValueError)"

definition np_sub :: "vec \<Rightarrow> vec \<Rightarrow> error + vec" where
  "np_sub = np_binop (-)"

definition isub :: "vec \<Rightarrow> vec \<Rightarrow> error + vec" where
  "isub = np_inplace (-)"

definition iadd :: "vec \<Rightarrow> vec \<Rightarrow> error + vec" where
  "iadd = np_inplace (+)"

subsection \<open>The orthogonalizer \<^verbatim>\<open>qr\<close>\<close>

text \<open>
  The inner loop \<^verbatim>\<open>for j in range(len(qs)): xi -= qs[j] * numpy.dot(qs[j], xi)\<close>.
\<close>

definition qr_project :: "vec list \<Rightarrow> vec \<Rightarrow> error + vec" where
  "qr_project qs xi0 =
     forM [0..<length qs]
       (\<lambda>j xi. bindE (numpy_dot (qs ! j) xi) (\<lambda>d. isub xi (vscale (qs ! j) d)))
       xi0"

text \<open>The body of the outer loop, for the candidate \<open>xs[i]\<close>.\<close>

definition qr_body :: "vec list \<Rightarrow> nat \<Rightarrow> vec list \<Rightarrow> error + vec list" where
  "qr_body xs i qs =
     bindE (qr_project qs (xs ! i))
       (\<lambda>xi. let norm = numpy_helper_norm xi
             in if norm > 1 / 10 ^ 7 then Inr (qs @ [vdiv xi norm]) else Inr qs)"

text \<open>
  \<^verbatim>\<open>qr\<close> is the same nested function in \<^verbatim>\<open>dgeev\<close> and in \<^verbatim>\<open>eig\<close>. \<open>xs[0]\<close> of an empty
  list raises; a first vector of norm zero (and positive size) is divided by zero.
\<close>

definition qr :: "vec list \<Rightarrow> error + vec list" where
  "qr xs =
     (if xs = [] then Inl IndexError
      else let n0 = numpy_helper_norm (xs ! 0)
           in if n0 = 0 \<and> xs ! 0 \<noteq> [] then Inl NonFinite
              else forM [1..<length xs] (qr_body xs) [vdiv (xs ! 0) n0])"






subsection \<open>The default selector \<^verbatim>\<open>pickeig\<close>\<close>

text \<open>
  \<^verbatim>\<open>numpy.where(w.imag == 0)[0]\<close>: the positions of the eigenvalues with imaginary part
  zero, ascending.
\<close>

definition realidx_of :: "complex list \<Rightarrow> nat list" where
  "realidx_of w = filter (\<lambda>i. Im (w ! i) = 0) [0..<length w]"

text \<open>
  \<^verbatim>\<open>a.argsort()\<close> is numpy's; its default sort is not stable, so which of two equal keys
  comes first is not fixed. It is a parameter of the model, specified by
  \<open>is_argsort\<close>: a permutation of the positions that lists the keys in ascending order.
  \<open>stable_argsort\<close> is one such function.
\<close>

definition is_argsort :: "(real list \<Rightarrow> nat list) \<Rightarrow> bool" where
  "is_argsort argsort \<longleftrightarrow>
     (\<forall>a. set (argsort a) = {0..<length a} \<and> length (argsort a) = length a
          \<and> sorted (map (\<lambda>i. a ! i) (argsort a)))"

definition stable_argsort :: "real list \<Rightarrow> nat list" where
  "stable_argsort a = sort_key (\<lambda>i. a ! i) [0..<length a]"

text \<open>
  \<^verbatim>\<open>realidx[w[realidx].real.argsort()[:nroots]]\<close>; the eigenvector matrix \<open>v\<close> is not
  used.
\<close>

definition pickeig :: "(real list \<Rightarrow> nat list) \<Rightarrow> complex list \<Rightarrow> 'v \<Rightarrow> nat \<Rightarrow> nat list" where
  "pickeig argsort w v nroots =
     (let realidx = realidx_of w
      in map (\<lambda>p. realidx ! p) (take nroots (argsort (map (\<lambda>i. Re (w ! i)) realidx))))"


subsection \<open>Projected matrices\<close>

text \<open>
  \<^verbatim>\<open>heff\<close> and \<^verbatim>\<open>seff\<close> are square arrays made by \<^verbatim>\<open>numpy.empty\<close>: their first content is
  whatever the allocator left there, here the parameter \<open>mem\<close>. A write or a read outside
  the array raises.
\<close>

record matrix =
  m_dim :: nat
  m_cell :: "nat \<Rightarrow> nat \<Rightarrow> real"

definition numpy_empty :: "(nat \<Rightarrow> nat \<Rightarrow> real) \<Rightarrow> nat \<Rightarrow> matrix" where
  "numpy_empty mem n = \<lparr>m_dim = n, m_cell = mem\<rparr>"

definition mat_set :: "matrix \<Rightarrow> nat \<Rightarrow> nat \<Rightarrow> real \<Rightarrow> error + matrix" where
  "mat_set M i j a =
     (if i < m_dim M \<and> j < m_dim M
      then Inr (M\<lparr>m_cell := (\<lambda>r c. if r = i \<and> c = j then a else m_cell M r c)\<rparr>)
      else Inl IndexError)"

definition mat_get :: "matrix \<Rightarrow> nat \<Rightarrow> nat \<Rightarrow> error + real" where
  "mat_get M i j = (if i < m_dim M \<and> j < m_dim M then Inr (m_cell M i j) else Inl IndexError)"

text \<open>The slice \<^verbatim>\<open>heff[:space,:space]\<close>, as a list of rows; a slice never raises.\<close>

definition block :: "matrix \<Rightarrow> nat \<Rightarrow> real list list" where
  "block M n = map (\<lambda>i. map (\<lambda>j. m_cell M i j) [0..<min n (m_dim M)]) [0..<min n (m_dim M)]"

text \<open>\<^verbatim>\<open>xs[i]\<close> for an index that is never negative.\<close>

definition nth_E :: "'a list \<Rightarrow> nat \<Rightarrow> error + 'a" where
  "nth_E xs i = (if i < length xs then Inr (xs ! i) else Inl IndexError)"

text \<open>\<^verbatim>\<open>v[i,k]\<close> for a two-dimensional array given by its rows.\<close>

definition get2 :: "'a list list \<Rightarrow> int \<Rightarrow> int \<Rightarrow> error + 'a" where
  "get2 v i k = bindE (py_get v i) (\<lambda>row. py_get row k)"

text \<open>Python's \<^verbatim>\<open>max\<close> of a list, which raises on the empty list.\<close>

definition py_max :: "real list \<Rightarrow> error + real" where
  "py_max l = (if l = [] then Inl ValueError else Inr (foldl max (hd l) (tl l)))"

text \<open>
  \<^verbatim>\<open>numpy.argmax\<close>: the first position of the largest entry; it raises on an empty array.
\<close>

definition numpy_argmax :: "real list \<Rightarrow> error + nat" where
  "numpy_argmax l =
     (if l = [] then Inl ValueError
      else Inr (hd (filter (\<lambda>i. l ! i = foldl max (hd l) (tl l)) [0..<length l])))"

subsection \<open>Arguments and local variables of the solvers\<close>

text \<open>
  \<^verbatim>\<open>x0\<close> is either one one-dimensional array, which the solvers wrap into a list, or
  already a sequence of vectors.
\<close>

datatype guess = Array1 vec | Vectors "vec list"

text \<open>
  The keyword arguments that are plain data. \<open>k_type\<close> is read by \<^verbatim>\<open>dgeev\<close> only and
  \<open>k_left\<close> by \<^verbatim>\<open>eig\<close> only.
\<close>

record kwargs =
  k_type :: int
  k_tol :: real
  k_max_cycle :: nat
  k_max_space :: nat
  k_lindep :: real
  k_max_memory :: real
  k_nroots :: nat
  k_lessio :: bool
  k_left :: bool

text \<open>
  The local variables that live across the statements of a cycle. The names are the
  source's, with a prefix. Before the first cycle most of them are unbound; the record
  then holds placeholders that no statement reads.
\<close>

record locals =
  v_incore :: bool
  v_heff :: matrix
  v_seff :: matrix
  v_fresh_start :: bool
  v_xs :: "vec list"
  v_ax :: "vec list"
  v_bx :: "vec list"
  v_space :: nat
  v_xt :: "vec list"
  v_x0 :: "vec list"
  v_e :: "real list"
  v_axt :: "vec list"
  v_bxt :: "vec list"
  v_rnow :: nat
  v_head :: nat
  v_w :: "real list"
  v_v :: "real list list"
  v_de :: "real list"
  v_ax0 :: "vec list"
  v_bx0 :: "vec list"
  v_dx_norm :: "real list"

text \<open>
  \<^verbatim>\<open>callback(locals())\<close>: the callback is handed every local variable, the arguments
  among them. It cannot rebind them; it returns (\<open>False\<close>) or raises (\<open>True\<close>). The
  model hands it the keyword arguments as the locals hold them, the cycle number and the
  record of locals. \<open>None\<close> is \<^verbatim>\<open>callback=None\<close>.
\<close>

type_synonym callback = "(kwargs \<Rightarrow> nat \<Rightarrow> locals \<Rightarrow> bool) option"

text \<open>How a cycle ends: it falls through to the next one or leaves the loop at a \<^verbatim>\<open>break\<close>.\<close>

datatype exit = ConvergedDe | ConvergedResidual | LinearDependency | CyclesExhausted

datatype flow = Continue | Break exit

text \<open>What \<^verbatim>\<open>return\<close> hands back: \<^verbatim>\<open>e[0], x0[0]\<close> or \<^verbatim>\<open>e, x0\<close>.\<close>

datatype result = Single real vec | Multi "real list" "vec list"

text \<open>
  Modelled from the spec: \<^verbatim>\<open>linalg_helper._Xlist\<close> is not among the sources. By the spec
  the disk-backed store has \<^verbatim>\<open>append\<close> and an indexed read that later appends never
  invalidate, so it holds the sequence of the vectors appended to it.
\<close>

definition Xlist :: "vec list" where
  "Xlist = []"

definition new_store :: "bool \<Rightarrow> vec list" where
  "new_store incore = (if incore then [] else Xlist)"

text \<open>\<^verbatim>\<open>toloose = numpy.sqrt(tol) * 1e-2\<close>; the root of a negative number is nan.\<close>

definition toloose_of :: "real \<Rightarrow> error + real" where
  "toloose_of tol = (if tol < 0 then Inl NonFinite else Inr (sqrt tol * (1 / 10 ^ 2)))"

text \<open>
  The statements before the loop, the same in both solvers but for the factor (3 in
  \<^verbatim>\<open>dgeev\<close>, 2 in \<^verbatim>\<open>eig\<close>) of the memory estimate: the list of guess vectors, the reduced
  \<^verbatim>\<open>max_cycle\<close>, the enlarged \<^verbatim>\<open>max_space\<close> and \<^verbatim>\<open>_incore\<close>. \<^verbatim>\<open>x0[0]\<close> raises on an empty
  list; \<^verbatim>\<open>nbytes\<close> is 8 bytes for each entry, and a float divided by the integer zero
  raises.
\<close>

definition guess_list :: "guess \<Rightarrow> vec list" where
  "guess_list g = (case g of Array1 x \<Rightarrow> [x] | Vectors l \<Rightarrow> l)"

definition prologue :: "nat \<Rightarrow> guess \<Rightarrow> kwargs \<Rightarrow> error + (vec list \<times> kwargs \<times> bool)" where
  "prologue factor g k =
     (let x0 = guess_list g
      in bindE (nth_E x0 0) (\<lambda>x00.
           let max_cycle = min (k_max_cycle k) (length x00);
               max_space = k_max_space k + k_nroots k * 2;
               nbytes = 8 * length x00
           in if nbytes = 0 then Inl ZeroDivisionError
              else Inr (x0, k\<lparr>k_max_cycle := max_cycle, k_max_space := max_space\<rparr>,
                        k_max_memory k * 10 ^ 6 / real nbytes
                          > real (max_space * factor + k_nroots k * factor))))"

definition init_locals :: "(nat \<Rightarrow> nat \<Rightarrow> real) \<Rightarrow> (nat \<Rightarrow> nat \<Rightarrow> real) \<Rightarrow> vec list \<Rightarrow> kwargs \<Rightarrow> bool \<Rightarrow> locals" where
  "init_locals memh mems x0 k incore =
     \<lparr>v_incore = incore, v_heff = numpy_empty memh (k_max_space k),
      v_seff = numpy_empty mems (k_max_space k), v_fresh_start = True,
      v_xs = [], v_ax = [], v_bx = [], v_space = 0, v_xt = [], v_x0 = x0, v_e = [],
      v_axt = [], v_bxt = [], v_rnow = 0, v_head = 0, v_w = [], v_v = [], v_de = [],
      v_ax0 = [], v_bx0 = [], v_dx_norm = []\<rparr>"

subsection \<open>The stages of a cycle that the two solvers share\<close>

text \<open>
  The head of the loop body: on a fresh start the stores are emptied and the guess (or the
  Ritz vectors of the cycle before) is orthogonalized; otherwise two or more trial vectors
  are orthogonalized and cut to 40. (\<^verbatim>\<open>x0\<close> is set to \<^verbatim>\<open>None\<close> here and not read before it is
  bound again; the model leaves the field as it is.)
\<close>

definition cycle_head :: "kwargs \<Rightarrow> locals \<Rightarrow> error + locals" where
  "cycle_head k s =
     (if v_fresh_start s then
        bindE (qr (v_x0 s)) (\<lambda>q.
          Inr (s\<lparr>v_xs := new_store (v_incore s), v_ax := new_store (v_incore s),
                 v_bx := new_store (v_incore s), v_space := 0, v_xt := q,
                 v_e := replicate (k_nroots k) 0, v_fresh_start := False\<rparr>))
      else if length (v_xt s) > 1 then
        bindE (qr (v_xt s)) (\<lambda>q. Inr (s\<lparr>v_xt := take 40 q\<rparr>))
      else Inr s)"

text \<open>
  \<^verbatim>\<open>ide = numpy.argmax(abs(de))\<close> and the first convergence test
  \<^verbatim>\<open>abs(de[ide]) < tol\<close>.
\<close>

definition de_converged :: "kwargs \<Rightarrow> locals \<Rightarrow> error + bool" where
  "de_converged k s =
     bindE (numpy_argmax (map abs (v_de s))) (\<lambda>ide. Inr (\<bar>v_de s ! ide\<bar> < k_tol k))"

text \<open>
  The first loop of the pruning: a residual above \<^verbatim>\<open>toloose\<close> is preconditioned and
  normalized, the others become \<^verbatim>\<open>None\<close>. \<^verbatim>\<open>xt\<close>, \<^verbatim>\<open>dx_norm\<close> and \<^verbatim>\<open>x0\<close> were built with one
  entry for each entry of \<^verbatim>\<open>e\<close>.
\<close>

definition precond_step ::
  "(vec \<Rightarrow> real \<Rightarrow> vec \<Rightarrow> vec) \<Rightarrow> real \<Rightarrow> locals \<Rightarrow> nat \<Rightarrow> vec option list \<Rightarrow> error + vec option list" where
  "precond_step precond toloose s k xt =
     (if v_dx_norm s ! k > toloose then
        (let p = precond (the (xt ! k)) (v_e s ! 0) (v_x0 s ! k); n = numpy_helper_norm p
         in if n = 0 \<and> p \<noteq> [] then Inl NonFinite
            else Inr (xt[k := Some (vscale p (1 / n))]))
      else Inr (xt[k := None]))"

text \<open>\<^verbatim>\<open>[xi for xi in xt if xi is not None]\<close>\<close>

definition not_None :: "'a option list \<Rightarrow> 'a list" where
  "not_None l = List.map_filter (\<lambda>x. x) l"

text \<open>
  The projection of the trial vectors against the whole basis,
  \<^verbatim>\<open>xi -= xsi * numpy.dot(xi, xsi)\<close>, in place for every \<open>xi\<close> of \<^verbatim>\<open>xt\<close>.
\<close>

definition project_one :: "vec \<Rightarrow> nat \<Rightarrow> vec list \<Rightarrow> error + vec list" where
  "project_one xsi m xt =
     bindE (numpy_dot (xt ! m) xsi) (\<lambda>d.
     bindE (isub (xt ! m) (vscale xsi d)) (\<lambda>y. Inr (xt[m := y])))"

text \<open>
  The second loop of the pruning: a projected vector of norm above \<^verbatim>\<open>toloose\<close> is
  normalized, the others are dropped.
\<close>

definition prune :: "real \<Rightarrow> vec list \<Rightarrow> vec list" where
  "prune toloose xt =
     not_None (map (\<lambda>xi. let norm = numpy_helper_norm xi
                          in if norm > toloose then Some (vscale xi (1 / norm)) else None) xt)"

text \<open>
  The tail of the loop body: no survivor leaves the loop; otherwise the restart flag is
  set when the survivors would not fit, and the callback is called.
\<close>

definition cycle_tail :: "callback \<Rightarrow> kwargs \<Rightarrow> nat \<Rightarrow> locals \<Rightarrow> error + (flow \<times> locals)" where
  "cycle_tail callback k icyc s =
     (if length (v_xt s) = 0 then Inr (Break LinearDependency, s)
      else let s1 = s\<lparr>v_fresh_start :=
                          v_fresh_start s \<or> v_space s + length (v_xt s) > k_max_space k\<rparr>
           in case callback of
                None \<Rightarrow> Inr (Continue, s1)
              | Some cb \<Rightarrow> if cb k icyc s1 then Inl CallbackRaised else Inr (Continue, s1))"

text \<open>
  \<^verbatim>\<open>for icyc in range(max_cycle)\<close> around a loop body: the result is the way the loop was
  left, the number of cycles that were begun, and the locals.
\<close>

fun cycles ::
  "(nat \<Rightarrow> locals \<Rightarrow> error + (flow \<times> locals)) \<Rightarrow> nat \<Rightarrow> nat \<Rightarrow> locals \<Rightarrow> error + (exit \<times> nat \<times> locals)" where
  "cycles body 0 icyc s = Inr (CyclesExhausted, icyc, s)"
| "cycles body (Suc n) icyc s =
     (case body icyc s of
        Inl err \<Rightarrow> Inl err
      | Inr (Break x, s') \<Rightarrow> Inr (x, Suc icyc, s')
      | Inr (Continue, s') \<Rightarrow> cycles body n (Suc icyc) s')"

text \<open>
  The values of \<^verbatim>\<open>space\<close> at the end of the cycles that ran to their end (by a \<^verbatim>\<open>break\<close> or
  by falling through), in order.
\<close>

fun space_trace ::
  "(nat \<Rightarrow> locals \<Rightarrow> error + (flow \<times> locals)) \<Rightarrow> nat \<Rightarrow> nat \<Rightarrow> locals \<Rightarrow> nat list" where
  "space_trace body 0 icyc s = []"
| "space_trace body (Suc n) icyc s =
     (case body icyc s of
        Inl err \<Rightarrow> []
      | Inr (Break x, s') \<Rightarrow> [v_space s']
      | Inr (Continue, s') \<Rightarrow> v_space s' # space_trace body n (Suc icyc) s')"

text \<open>
  The \<^verbatim>\<open>return\<close> statement. After no cycle at all \<^verbatim>\<open>e\<close> is unbound.
\<close>

definition return_stmt :: "kwargs \<Rightarrow> nat \<Rightarrow> locals \<Rightarrow> error + result" where
  "return_stmt k ncyc s =
     (if ncyc = 0 then Inl UnboundLocalError
      else if k_nroots k = 1 then
        bindE (nth_E (v_e s) 0) (\<lambda>e0. bindE (nth_E (v_x0 s) 0) (\<lambda>x00. Inr (Single e0 x00)))
      else Inr (Multi (v_e s) (v_x0 s)))"


text \<open>
  The statements that fill the projected matrices: \<^verbatim>\<open>M[r,c] = dot(x.conj(), y)\<close>, where
  indexing \<open>x\<close> and \<open>y\<close> out of their lists may raise before \<^verbatim>\<open>dot\<close> does, and
  \<^verbatim>\<open>M[r,c] = M[c,r].conj()\<close>. The entries are real, so \<^verbatim>\<open>conj\<close> changes nothing.
\<close>

definition assign_dot ::
  "(vec \<Rightarrow> vec \<Rightarrow> error + real) \<Rightarrow> matrix \<Rightarrow> nat \<Rightarrow> nat \<Rightarrow> error + vec \<Rightarrow> error + vec \<Rightarrow> error + matrix" where
  "assign_dot dot M r c xl xr =
     bindE xl (\<lambda>x. bindE xr (\<lambda>y. bindE (dot x y) (\<lambda>d. mat_set M r c d)))"

definition assign_conj :: "matrix \<Rightarrow> nat \<Rightarrow> nat \<Rightarrow> error + matrix" where
  "assign_conj M r c = bindE (mat_get M c r) (\<lambda>d. mat_set M r c d)"

text \<open>
  The statements that form the Ritz vectors: \<^verbatim>\<open>x0.append(xs[space-1] * v[space-1,k])\<close> and
  \<^verbatim>\<open>x0[k] += v[i,k] * xsi\<close>, for any of the three lists.
\<close>

definition comb_append :: "vec list \<Rightarrow> locals \<Rightarrow> nat \<Rightarrow> vec list \<Rightarrow> error + vec list" where
  "comb_append store s k acc =
     bindE (py_get store (int (v_space s) - 1)) (\<lambda>x.
     bindE (get2 (v_v s) (int (v_space s) - 1) (int k)) (\<lambda>c. Inr (acc @ [vscale x c])))"

definition comb_add :: "vec \<Rightarrow> locals \<Rightarrow> nat \<Rightarrow> nat \<Rightarrow> vec list \<Rightarrow> error + vec list" where
  "comb_add xsi s i k acc =
     bindE (nth_E acc k) (\<lambda>y.
     bindE (get2 (v_v s) (int i) (int k)) (\<lambda>c.
     bindE (iadd y (vscale xsi c)) (\<lambda>y'. Inr (acc[k := y']))))"

subsection \<open>The generalized solver \<^verbatim>\<open>dgeev\<close>\<close>

text \<open>
  The collaborators of \<^verbatim>\<open>dgeev\<close>. The source calls \<^verbatim>\<open>abop\<close> with a list of vectors and, for
  \<^verbatim>\<open>type == 3\<close> after the loop, with one vector: \<open>d_abop\<close> and \<open>d_abop1\<close>.
  \<^verbatim>\<open>scipy.linalg.eigh\<close> is \<open>d_eigh\<close>; it gets the two blocks and gives the eigenvalues and
  the rows of the eigenvector matrix, or raises.
\<close>

record dgeev_ops =
  d_abop :: "vec list \<Rightarrow> vec list \<times> vec list"
  d_abop1 :: "vec \<Rightarrow> vec \<times> vec"
  d_precond :: "vec \<Rightarrow> real \<Rightarrow> vec \<Rightarrow> vec"
  d_dot :: "vec \<Rightarrow> vec \<Rightarrow> error + real"
  d_eigh :: "real list list \<Rightarrow> real list list \<Rightarrow> error + (real list \<times> real list list)"
  d_callback :: callback
  d_memh :: "nat \<Rightarrow> nat \<Rightarrow> real"
  d_mems :: "nat \<Rightarrow> nat \<Rightarrow> real"

text \<open>Lines 118 to 126: the operator is applied and the batch is appended to the stores.\<close>

definition dgeev_append :: "locals \<Rightarrow> error + locals" where
  "dgeev_append s0 =
     forM [0..<length (v_xt s0)]
       (\<lambda>k s. bindE (nth_E (v_axt s) k) (\<lambda>a. bindE (nth_E (v_bxt s) k) (\<lambda>b.
                 Inr (s\<lparr>v_xs := v_xs s @ [v_xt s ! k], v_ax := v_ax s @ [a],
                        v_bx := v_bx s @ [b]\<rparr>))))
       s0"

definition dgeev_apply :: "dgeev_ops \<Rightarrow> kwargs \<Rightarrow> locals \<Rightarrow> error + locals" where
  "dgeev_apply ops k s =
     (let (axt, bxt) = d_abop ops (v_xt s);
          axt = (if k_type k > 1 then fst (d_abop ops bxt) else axt)
      in bindE (dgeev_append (s\<lparr>v_axt := axt, v_bxt := bxt\<rparr>)) (\<lambda>s.
           Inr (s\<lparr>v_rnow := length (v_xt s), v_head := v_space s,
                  v_space := v_space s + length (v_xt s)\<rparr>)))"

text \<open>
  Lines 128 to 155. The source writes the loop twice, for \<^verbatim>\<open>type == 1\<close> and for the other
  types; the two copies differ only in the left operand of the products for \<^verbatim>\<open>heff\<close>
  (\<^verbatim>\<open>xt[k]\<close> or \<^verbatim>\<open>bxt[k]\<close>), which is \<open>hleft\<close> here. \<open>dgeev_fill4\<close> is the four assignments
  of an inner loop body.
\<close>

definition hleft :: "kwargs \<Rightarrow> locals \<Rightarrow> vec list" where
  "hleft k s = (if k_type k = 1 then v_xt s else v_bxt s)"

definition dgeev_fill4 ::
  "dgeev_ops \<Rightarrow> kwargs \<Rightarrow> nat \<Rightarrow> vec list \<Rightarrow> vec list \<Rightarrow> nat \<Rightarrow> nat \<Rightarrow> locals \<Rightarrow> error + locals" where
  "dgeev_fill4 ops k i aimg bimg j kk s =
     bindE (assign_dot (d_dot ops) (v_heff s) (v_head s + kk) i
              (nth_E (hleft k s) kk) (nth_E aimg j)) (\<lambda>h1.
     bindE (assign_conj h1 i (v_head s + kk)) (\<lambda>h2.
     bindE (assign_dot (d_dot ops) (v_seff s) (v_head s + kk) i
              (nth_E (v_xt s) kk) (nth_E bimg j)) (\<lambda>s1.
     bindE (assign_conj s1 i (v_head s + kk)) (\<lambda>s2.
       Inr (s\<lparr>v_heff := h2, v_seff := s2\<rparr>)))))"

definition dgeev_fill_col :: "dgeev_ops \<Rightarrow> kwargs \<Rightarrow> nat \<Rightarrow> locals \<Rightarrow> error + locals" where
  "dgeev_fill_col ops k i s =
     (if v_head s \<le> i \<and> i < v_head s + v_rnow s then
        forM [0..<i - v_head s + 1]
          (dgeev_fill4 ops k i (v_axt s) (v_bxt s) (i - v_head s)) s
      else
        forM [0..<v_rnow s] (dgeev_fill4 ops k i (v_ax s) (v_bx s) i) s)"

definition dgeev_fill :: "dgeev_ops \<Rightarrow> kwargs \<Rightarrow> locals \<Rightarrow> error + locals" where
  "dgeev_fill ops k s = forM [0..<v_space s] (dgeev_fill_col ops k) s"

text \<open>
  Lines 157 to 162: the small generalized eigenproblem, the eigenvalue changes \<^verbatim>\<open>de\<close> and
  the new \<^verbatim>\<open>e\<close>.
\<close>

definition dgeev_solve :: "dgeev_ops \<Rightarrow> kwargs \<Rightarrow> locals \<Rightarrow> error + locals" where
  "dgeev_solve ops k s =
     bindE (d_eigh ops (block (v_heff s) (v_space s)) (block (v_seff s) (v_space s)))
       (\<lambda>(w, v).
          bindE (if v_space s < k_nroots k \<or> length (v_e s) \<noteq> k_nroots k
                 then Inr (take (k_nroots k) w)
                 else np_sub (take (k_nroots k) w) (v_e s))
            (\<lambda>de. Inr (s\<lparr>v_w := w, v_v := v, v_de := de, v_e := take (k_nroots k) w\<rparr>)))"

text \<open>
  Lines 164 to 189: the Ritz vectors \<^verbatim>\<open>x0\<close> and their images, either assembled from the
  stored images or, for \<^verbatim>\<open>lessio and not _incore\<close>, computed by the operator.
\<close>

definition dgeev_ritz_stored :: "locals \<Rightarrow> error + locals" where
  "dgeev_ritz_stored s0 =
     bindE (forM [0..<length (v_e s0)]
              (\<lambda>k s. bindE (comb_append (v_xs s) s k (v_x0 s)) (\<lambda>x.
                      bindE (comb_append (v_ax s) s k (v_ax0 s)) (\<lambda>a.
                      bindE (comb_append (v_bx s) s k (v_bx0 s)) (\<lambda>b.
                        Inr (s\<lparr>v_x0 := x, v_ax0 := a, v_bx0 := b\<rparr>)))))
              (s0\<lparr>v_x0 := [], v_ax0 := [], v_bx0 := []\<rparr>))
       (forM (rev [0..<v_space s0 - 1])
          (\<lambda>i s. bindE (nth_E (v_xs s) i) (\<lambda>xsi.
                  bindE (nth_E (v_ax s) i) (\<lambda>axi.
                  bindE (nth_E (v_bx s) i) (\<lambda>bxi.
                    forM [0..<length (v_e s)]
                      (\<lambda>k s. bindE (comb_add xsi s i k (v_x0 s)) (\<lambda>x.
                              bindE (comb_add axi s i k (v_ax0 s)) (\<lambda>a.
                              bindE (comb_add bxi s i k (v_bx0 s)) (\<lambda>b.
                                Inr (s\<lparr>v_x0 := x, v_ax0 := a, v_bx0 := b\<rparr>)))))
                      s)))))"

definition ritz_vectors :: "locals \<Rightarrow> error + locals" where
  "ritz_vectors s0 =
     bindE (forM [0..<length (v_e s0)]
              (\<lambda>k s. bindE (comb_append (v_xs s) s k (v_x0 s)) (\<lambda>x. Inr (s\<lparr>v_x0 := x\<rparr>)))
              (s0\<lparr>v_x0 := [], v_ax0 := [], v_bx0 := []\<rparr>))
       (forM (rev [0..<v_space s0 - 1])
          (\<lambda>i s. bindE (nth_E (v_xs s) i) (\<lambda>xsi.
                    forM [0..<length (v_e s)]
                      (\<lambda>k s. bindE (comb_add xsi s i k (v_x0 s)) (\<lambda>x. Inr (s\<lparr>v_x0 := x\<rparr>)))
                      s)))"

definition dgeev_ritz :: "dgeev_ops \<Rightarrow> kwargs \<Rightarrow> locals \<Rightarrow> error + locals" where
  "dgeev_ritz ops k s =
     (if k_lessio k \<and> \<not> v_incore s then
        bindE (ritz_vectors s) (\<lambda>s.
          let (ax0, bx0) = d_abop ops (v_x0 s);
              ax0 = (if k_type k > 1 then fst (d_abop ops bx0) else ax0)
          in Inr (s\<lparr>v_ax0 := ax0, v_bx0 := bx0\<rparr>))
      else dgeev_ritz_stored s)"

text \<open>Lines 197 to 205: the residuals and their norms.\<close>

definition dgeev_residual :: "kwargs \<Rightarrow> locals \<Rightarrow> error + locals" where
  "dgeev_residual k s0 =
     forM [0..<length (v_e s0)]
       (\<lambda>j s. bindE (nth_E (v_ax0 s) j) (\<lambda>a.
               bindE (nth_E (if k_type k = 1 then v_bx0 s else v_x0 s) j) (\<lambda>b.
               bindE (np_sub a (vscale b (v_e s ! j))) (\<lambda>dxtmp.
                 Inr (s\<lparr>v_xt := v_xt s @ [dxtmp],
                        v_dx_norm := v_dx_norm s @ [numpy_helper_norm dxtmp]\<rparr>)))))
       (s0\<lparr>v_dx_norm := [], v_xt := []\<rparr>)"

text \<open>
  Lines 212 to 232: the new trial vectors. In \<^verbatim>\<open>dgeev\<close> the basis vector \<^verbatim>\<open>xs[i]\<close> is read
  inside the inner loop.
\<close>

definition dgeev_trial :: "(vec \<Rightarrow> real \<Rightarrow> vec \<Rightarrow> vec) \<Rightarrow> real \<Rightarrow> locals \<Rightarrow> error + locals" where
  "dgeev_trial precond toloose s =
     bindE (forM [0..<length (v_e s)] (precond_step precond toloose s) (map Some (v_xt s)))
       (\<lambda>xo.
          bindE (forM [0..<v_space s]
                   (\<lambda>i xt. forM [0..<length xt]
                              (\<lambda>m xt. bindE (nth_E (v_xs s) i) (\<lambda>xsi. project_one xsi m xt))
                              xt)
                   (not_None xo))
            (\<lambda>xt. Inr (s\<lparr>v_xt := prune toloose xt\<rparr>)))"

text \<open>One cycle of the loop of \<^verbatim>\<open>dgeev\<close>.\<close>

definition dgeev_cycle :: "dgeev_ops \<Rightarrow> kwargs \<Rightarrow> real \<Rightarrow> nat \<Rightarrow> locals \<Rightarrow> error + (flow \<times> locals)" where
  "dgeev_cycle ops k toloose icyc s0 =
     bindE (cycle_head k s0) (\<lambda>s1.
     bindE (dgeev_apply ops k s1) (\<lambda>s2.
     bindE (dgeev_fill ops k s2) (\<lambda>s3.
     bindE (dgeev_solve ops k s3) (\<lambda>s4.
     bindE (dgeev_ritz ops k s4) (\<lambda>s5.
     bindE (de_converged k s5) (\<lambda>conv.
       if conv then Inr (Break ConvergedDe, s5)
       else
         bindE (dgeev_residual k s5) (\<lambda>s6.
         bindE (py_max (v_dx_norm s6)) (\<lambda>m.
           if m < toloose then Inr (Break ConvergedResidual, s6)
           else
             bindE (dgeev_trial (d_precond ops) toloose s6) (\<lambda>s7.
               cycle_tail (d_callback ops) k icyc s7)))))))))"

text \<open>
  The statements before the loop and the loop: the way the loop was left, the number of
  cycles begun and the locals at that point.
\<close>

definition dgeev_run :: "dgeev_ops \<Rightarrow> guess \<Rightarrow> kwargs \<Rightarrow> error + (exit \<times> nat \<times> locals)" where
  "dgeev_run ops g k =
     bindE (prologue 3 g k) (\<lambda>(x0, k', incore).
     bindE (toloose_of (k_tol k')) (\<lambda>toloose.
       cycles (dgeev_cycle ops k' toloose) (k_max_cycle k') 0
         (init_locals (d_memh ops) (d_mems ops) x0 k' incore)))"

text \<open>Lines 244 to 251: for \<^verbatim>\<open>type == 3\<close> the Ritz vectors are mapped by \<open>B\<close>; the return.\<close>

definition dgeev_finish :: "dgeev_ops \<Rightarrow> kwargs \<Rightarrow> nat \<Rightarrow> locals \<Rightarrow> error + result" where
  "dgeev_finish ops k ncyc s =
     bindE (if k_type k = 3
            then forM [0..<k_nroots k]
                   (\<lambda>j x0. bindE (nth_E x0 j) (\<lambda>x. Inr (x0[j := snd (d_abop1 ops x)])))
                   (v_x0 s)
            else Inr (v_x0 s))
       (\<lambda>x0. return_stmt k ncyc (s\<lparr>v_x0 := x0\<rparr>))"

definition dgeev :: "dgeev_ops \<Rightarrow> guess \<Rightarrow> kwargs \<Rightarrow> error + result" where
  "dgeev ops g k = bindE (dgeev_run ops g k) (\<lambda>(x, ncyc, s). dgeev_finish ops k ncyc s)"


subsection \<open>The standard solver \<^verbatim>\<open>eig\<close>\<close>

text \<open>
  The collaborators of \<^verbatim>\<open>eig\<close>. \<^verbatim>\<open>scipy.linalg.eig\<close> is \<open>g_eig\<close>: it gets the block and
  gives the complex eigenvalues and the rows of the complex eigenvector matrix, or raises.
  \<open>g_pick\<close> is the selector \<^verbatim>\<open>pick\<close>, which gives positions in \<open>w\<close>.
\<close>

record eig_ops =
  g_aop :: "vec list \<Rightarrow> vec list"
  g_precond :: "vec \<Rightarrow> real \<Rightarrow> vec \<Rightarrow> vec"
  g_dot :: "vec \<Rightarrow> vec \<Rightarrow> error + real"
  g_eig :: "real list list \<Rightarrow> error + (complex list \<times> complex list list)"
  g_pick :: "complex list \<Rightarrow> complex list list \<Rightarrow> nat \<Rightarrow> nat list"
  g_callback :: callback
  g_memh :: "nat \<Rightarrow> nat \<Rightarrow> real"

text \<open>Lines 312 to 317. (\<^verbatim>\<open>eig\<close> has no \<^verbatim>\<open>bx\<close>, \<^verbatim>\<open>bxt\<close>, \<^verbatim>\<open>bx0\<close> and \<^verbatim>\<open>seff\<close>; it leaves those fields alone.)\<close>

definition eig_append :: "locals \<Rightarrow> error + locals" where
  "eig_append s0 =
     forM [0..<length (v_xt s0)]
       (\<lambda>k s. bindE (nth_E (v_axt s) k) (\<lambda>a.
                 Inr (s\<lparr>v_xs := v_xs s @ [v_xt s ! k], v_ax := v_ax s @ [a]\<rparr>)))
       s0"

definition eig_apply :: "eig_ops \<Rightarrow> locals \<Rightarrow> error + locals" where
  "eig_apply ops s =
     bindE (eig_append (s\<lparr>v_axt := g_aop ops (v_xt s)\<rparr>)) (\<lambda>s.
       Inr (s\<lparr>v_rnow := length (v_xt s), v_head := v_space s,
              v_space := v_space s + length (v_xt s)\<rparr>))"

text \<open>Lines 319 to 327: the new block of \<^verbatim>\<open>heff\<close>, then its new rows and columns.\<close>

definition eig_fill_new :: "eig_ops \<Rightarrow> locals \<Rightarrow> error + locals" where
  "eig_fill_new ops s0 =
     forM [0..<v_rnow s0]
       (\<lambda>i. forM [0..<v_rnow s0]
          (\<lambda>kk s. bindE (assign_dot (g_dot ops) (v_heff s) (v_head s + kk) (v_head s + i)
                            (nth_E (v_xt s) kk) (nth_E (v_axt s) i))
                     (\<lambda>h. Inr (s\<lparr>v_heff := h\<rparr>))))
       s0"

definition eig_fill_old :: "eig_ops \<Rightarrow> locals \<Rightarrow> error + locals" where
  "eig_fill_old ops s0 =
     forM [0..<v_head s0]
       (\<lambda>i s. bindE (nth_E (v_ax s) i) (\<lambda>axi. bindE (nth_E (v_xs s) i) (\<lambda>xi.
                 forM [0..<v_rnow s]
                   (\<lambda>kk s. bindE (assign_dot (g_dot ops) (v_heff s) (v_head s + kk) i
                                     (nth_E (v_xt s) kk) (Inr axi)) (\<lambda>h1.
                            bindE (assign_dot (g_dot ops) h1 i (v_head s + kk)
                                     (Inr xi) (nth_E (v_axt s) kk)) (\<lambda>h2.
                              Inr (s\<lparr>v_heff := h2\<rparr>))))
                   s)))
       s0"

definition eig_fill :: "eig_ops \<Rightarrow> locals \<Rightarrow> error + locals" where
  "eig_fill ops s = bindE (eig_fill_new ops s) (eig_fill_old ops)"

text \<open>
  \<^verbatim>\<open>w[idx].real\<close> and \<^verbatim>\<open>v[:,idx].real\<close>: indexing by an array of positions raises when a
  position is out of range.
\<close>

definition take_real :: "complex list \<Rightarrow> nat list \<Rightarrow> error + real list" where
  "take_real w idx =
     (if \<forall>i \<in> set idx. i < length w then Inr (map (\<lambda>i. Re (w ! i)) idx) else Inl IndexError)"

definition take_cols_real :: "complex list list \<Rightarrow> nat list \<Rightarrow> error + real list list" where
  "take_cols_real v idx =
     (if \<forall>row \<in> set v. \<forall>i \<in> set idx. i < length row
      then Inr (map (\<lambda>row. map (\<lambda>i. Re (row ! i)) idx) v) else Inl IndexError)"

text \<open>
  Lines 329 to 337: the small eigenproblem, the selection, \<^verbatim>\<open>de\<close>, \<^verbatim>\<open>e\<close> and the real
  coefficient matrix \<^verbatim>\<open>v\<close>. (The complex \<^verbatim>\<open>w\<close> is not kept in the record.)
\<close>

definition eig_solve :: "eig_ops \<Rightarrow> kwargs \<Rightarrow> locals \<Rightarrow> error + locals" where
  "eig_solve ops k s =
     bindE (g_eig ops (block (v_heff s) (v_space s)))
       (\<lambda>(w, v).
          let idx = g_pick ops w v (k_nroots k)
          in bindE (if length idx < k_nroots k \<or> length (v_e s) \<noteq> k_nroots k
                    then take_real w idx
                    else bindE (take_real w idx) (\<lambda>wr. np_sub wr (v_e s)))
               (\<lambda>de. bindE (take_real w idx) (\<lambda>e. bindE (take_cols_real v idx) (\<lambda>vr.
                        Inr (s\<lparr>v_v := vr, v_de := de, v_e := e\<rparr>)))))"

text \<open>
  Lines 339 to 358. \<^verbatim>\<open>eig\<close> has no \<^verbatim>\<open>bx0\<close>: the field that \<open>ritz_vectors\<close> empties is put
  back as it was.
\<close>

definition eig_ritz_stored :: "locals \<Rightarrow> error + locals" where
  "eig_ritz_stored s0 =
     bindE (forM [0..<length (v_e s0)]
              (\<lambda>k s. bindE (comb_append (v_xs s) s k (v_x0 s)) (\<lambda>x.
                      bindE (comb_append (v_ax s) s k (v_ax0 s)) (\<lambda>a.
                        Inr (s\<lparr>v_x0 := x, v_ax0 := a\<rparr>))))
              (s0\<lparr>v_x0 := [], v_ax0 := []\<rparr>))
       (forM (rev [0..<v_space s0 - 1])
          (\<lambda>i s. bindE (nth_E (v_xs s) i) (\<lambda>xsi.
                  bindE (nth_E (v_ax s) i) (\<lambda>axi.
                    forM [0..<length (v_e s)]
                      (\<lambda>k s. bindE (comb_add xsi s i k (v_x0 s)) (\<lambda>x.
                              bindE (comb_add axi s i k (v_ax0 s)) (\<lambda>a.
                                Inr (s\<lparr>v_x0 := x, v_ax0 := a\<rparr>))))
                      s))))"

definition eig_ritz :: "eig_ops \<Rightarrow> kwargs \<Rightarrow> locals \<Rightarrow> error + locals" where
  "eig_ritz ops k s =
     (if k_lessio k \<and> \<not> v_incore s then
        bindE (ritz_vectors s) (\<lambda>t. Inr (t\<lparr>v_ax0 := g_aop ops (v_x0 t), v_bx0 := v_bx0 s\<rparr>))
      else eig_ritz_stored s)"

text \<open>Lines 366 to 371.\<close>

definition eig_residual :: "locals \<Rightarrow> error + locals" where
  "eig_residual s0 =
     forM [0..<length (v_e s0)]
       (\<lambda>j s. bindE (nth_E (v_ax0 s) j) (\<lambda>a.
               bindE (nth_E (v_x0 s) j) (\<lambda>b.
               bindE (np_sub a (vscale b (v_e s ! j))) (\<lambda>dxtmp.
                 Inr (s\<lparr>v_xt := v_xt s @ [dxtmp],
                        v_dx_norm := v_dx_norm s @ [numpy_helper_norm dxtmp]\<rparr>)))))
       (s0\<lparr>v_dx_norm := [], v_xt := []\<rparr>)"

text \<open>Lines 378 to 398; here \<^verbatim>\<open>xs[i]\<close> is read in the outer loop.\<close>

definition eig_trial :: "(vec \<Rightarrow> real \<Rightarrow> vec \<Rightarrow> vec) \<Rightarrow> real \<Rightarrow> locals \<Rightarrow> error + locals" where
  "eig_trial precond toloose s =
     bindE (forM [0..<length (v_e s)] (precond_step precond toloose s) (map Some (v_xt s)))
       (\<lambda>xo.
          bindE (forM [0..<v_space s]
                   (\<lambda>i xt. bindE (nth_E (v_xs s) i) (\<lambda>xsi.
                              forM [0..<length xt] (project_one xsi) xt))
                   (not_None xo))
            (\<lambda>xt. Inr (s\<lparr>v_xt := prune toloose xt\<rparr>)))"

text \<open>One cycle of the loop of \<^verbatim>\<open>eig\<close>.\<close>

definition eig_cycle :: "eig_ops \<Rightarrow> kwargs \<Rightarrow> real \<Rightarrow> nat \<Rightarrow> locals \<Rightarrow> error + (flow \<times> locals)" where
  "eig_cycle ops k toloose icyc s0 =
     bindE (cycle_head k s0) (\<lambda>s1.
     bindE (eig_apply ops s1) (\<lambda>s2.
     bindE (eig_fill ops s2) (\<lambda>s3.
     bindE (eig_solve ops k s3) (\<lambda>s4.
     bindE (eig_ritz ops k s4) (\<lambda>s5.
     bindE (de_converged k s5) (\<lambda>conv.
       if conv then Inr (Break ConvergedDe, s5)
       else
         bindE (eig_residual s5) (\<lambda>s6.
         bindE (py_max (v_dx_norm s6)) (\<lambda>m.
           if m < toloose then Inr (Break ConvergedResidual, s6)
           else
             bindE (eig_trial (g_precond ops) toloose s6) (\<lambda>s7.
               cycle_tail (g_callback ops) k icyc s7)))))))))"

text \<open>\<^verbatim>\<open>assert(not left)\<close>, the statements before the loop, and the loop.\<close>

definition eig_run :: "eig_ops \<Rightarrow> guess \<Rightarrow> kwargs \<Rightarrow> error + (exit \<times> nat \<times> locals)" where
  "eig_run ops g k =
     (if k_left k then Inl AssertionError
      else
        bindE (prologue 2 g k) (\<lambda>(x0, k', incore).
        bindE (toloose_of (k_tol k')) (\<lambda>toloose.
          cycles (eig_cycle ops k' toloose) (k_max_cycle k') 0
            (init_locals (g_memh ops) (g_memh ops) x0 k' incore))))"

definition eig :: "eig_ops \<Rightarrow> guess \<Rightarrow> kwargs \<Rightarrow> error + result" where
  "eig ops g k = bindE (eig_run ops g k) (\<lambda>(x, ncyc, s). return_stmt k ncyc s)"


subsection \<open>Counting the cycles\<close>

text \<open>
  The number of times the loop body is entered, the cycle that raises included. It follows
  the same recursion as \<open>cycles\<close>.
\<close>

fun cycles_begun ::
  "(nat \<Rightarrow> locals \<Rightarrow> error + (flow \<times> locals)) \<Rightarrow> nat \<Rightarrow> nat \<Rightarrow> locals \<Rightarrow> nat" where
  "cycles_begun body 0 icyc s = 0"
| "cycles_begun body (Suc n) icyc s =
     (case body icyc s of
        Inr (Continue, s') \<Rightarrow> Suc (cycles_begun body n (Suc icyc) s')
      | _ \<Rightarrow> 1)"

definition dgeev_cycles_begun :: "dgeev_ops \<Rightarrow> guess \<Rightarrow> kwargs \<Rightarrow> nat" where
  "dgeev_cycles_begun ops g k =
     (case prologue 3 g k of
        Inl err \<Rightarrow> 0
      | Inr (x0, k', incore) \<Rightarrow>
          (case toloose_of (k_tol k') of
             Inl err \<Rightarrow> 0
           | Inr toloose \<Rightarrow>
               cycles_begun (dgeev_cycle ops k' toloose) (k_max_cycle k') 0
                 (init_locals (d_memh ops) (d_mems ops) x0 k' incore)))"

definition eig_cycles_begun :: "eig_ops \<Rightarrow> guess \<Rightarrow> kwargs \<Rightarrow> nat" where
  "eig_cycles_begun ops g k =
     (if k_left k then 0
      else case prologue 2 g k of
        Inl err \<Rightarrow> 0
      | Inr (x0, k', incore) \<Rightarrow>
          (case toloose_of (k_tol k') of
             Inl err \<Rightarrow> 0
           | Inr toloose \<Rightarrow>
               cycles_begun (eig_cycle ops k' toloose) (k_max_cycle k') 0
                 (init_locals (g_memh ops) (g_memh ops) x0 k' incore)))"

text \<open>The values of \<^verbatim>\<open>space\<close> over a run of \<^verbatim>\<open>dgeev\<close> and of \<^verbatim>\<open>eig\<close>.\<close>

definition dgeev_spaces :: "dgeev_ops \<Rightarrow> guess \<Rightarrow> kwargs \<Rightarrow> nat list" where
  "dgeev_spaces ops g k =
     (case prologue 3 g k of
        Inl err \<Rightarrow> []
      | Inr (x0, k', incore) \<Rightarrow>
          (case toloose_of (k_tol k') of
             Inl err \<Rightarrow> []
           | Inr toloose \<Rightarrow>
               space_trace (dgeev_cycle ops k' toloose) (k_max_cycle k') 0
                 (init_locals (d_memh ops) (d_mems ops) x0 k' incore)))"

definition eig_spaces :: "eig_ops \<Rightarrow> guess \<Rightarrow> kwargs \<Rightarrow> nat list" where
  "eig_spaces ops g k =
     (if k_left k then []
      else case prologue 2 g k of
        Inl err \<Rightarrow> []
      | Inr (x0, k', incore) \<Rightarrow>
          (case toloose_of (k_tol k') of
             Inl err \<Rightarrow> []
           | Inr toloose \<Rightarrow>
               space_trace (eig_cycle ops k' toloose) (k_max_cycle k') 0
                 (init_locals (g_memh ops) (g_memh ops) x0 k' incore)))"

subsection \<open>Collaborators and arguments of the examples\<close>

text \<open>
  Operators in the form the solvers call them: the identity, the zero matrix, the matrix
  of ones (of size two) and the tridiagonal matrix with 2 on and 1 beside the diagonal (of
  size three) for \<open>A\<close>, the identity for \<open>B\<close>; and an operator whose images have size
  one whatever the size of its arguments.
\<close>

definition ex_abop_id :: "vec list \<Rightarrow> vec list \<times> vec list" where
  "ex_abop_id xs = (xs, xs)"

definition ex_abop_zero :: "vec list \<Rightarrow> vec list \<times> vec list" where
  "ex_abop_zero xs = (map (map (\<lambda>a. 0)) xs, xs)"

definition ex_abop_ones :: "vec list \<Rightarrow> vec list \<times> vec list" where
  "ex_abop_ones xs = (map (\<lambda>x. map (\<lambda>a. sum_list x) x) xs, xs)"

definition ex_abop_tri :: "vec list \<Rightarrow> vec list \<times> vec list" where
  "ex_abop_tri xs =
     (map (\<lambda>x. [2 * x ! 0 + x ! 1, x ! 0 + 2 * x ! 1 + x ! 2, x ! 1 + 2 * x ! 2]) xs, xs)"

definition ex_abop_short :: "vec list \<Rightarrow> vec list \<times> vec list" where
  "ex_abop_short xs = (map (\<lambda>x. [1]) xs, map (\<lambda>x. [1]) xs)"

text \<open>
  Preconditioners: one that hands the residual back, one that always gives the first unit
  vector of size two.
\<close>

definition ex_precond_id :: "vec \<Rightarrow> real \<Rightarrow> vec \<Rightarrow> vec" where
  "ex_precond_id dx e x = dx"

definition ex_precond_e1 :: "vec \<Rightarrow> real \<Rightarrow> vec \<Rightarrow> vec" where
  "ex_precond_e1 dx e x = [1, 0]"

text \<open>
  The values of \<^verbatim>\<open>scipy.linalg.eigh\<close> that the examples need: on blocks of size one the
  eigenvalue \<open>h / s\<close> with the eigenvector \<open>1 / sqrt s\<close>, and on a symmetric matrix of
  size two with equal diagonal entries \<open>a\<close> and positive off-diagonal entries \<open>b\<close>, with
  the identity metric, the eigenvalues \<open>a - b\<close> and \<open>a + b\<close> with their normalized
  eigenvectors as columns. On other arguments this stand-in raises; no example reaches
  them.
\<close>

definition ex_eigh :: "real list list \<Rightarrow> real list list \<Rightarrow> error + (real list \<times> real list list)" where
  "ex_eigh H S =
     (if length H = 1 \<and> length (hd H) = 1 \<and> length S = 1 \<and> length (hd S) = 1 \<and> hd (hd S) > 0
      then Inr ([hd (hd H) / hd (hd S)], [[1 / sqrt (hd (hd S))]])
      else if length H = 2 \<and> length (H ! 0) = 2 \<and> length (H ! 1) = 2
              \<and> H ! 0 ! 0 = H ! 1 ! 1 \<and> H ! 0 ! 1 = H ! 1 ! 0 \<and> H ! 0 ! 1 > 0
              \<and> S = [[1, 0], [0, 1]]
      then Inr ([H ! 0 ! 0 - H ! 0 ! 1, H ! 0 ! 0 + H ! 0 ! 1],
                [[- (1 / sqrt 2), 1 / sqrt 2], [1 / sqrt 2, 1 / sqrt 2]])
      else Inl LinAlgError)"

text \<open>The same for \<^verbatim>\<open>scipy.linalg.eig\<close>, whose eigenvalues and eigenvectors are complex.\<close>

definition ex_eig :: "real list list \<Rightarrow> error + (complex list \<times> complex list list)" where
  "ex_eig H =
     (if length H = 1 \<and> length (hd H) = 1
      then Inr ([Complex (hd (hd H)) 0], [[Complex 1 0]])
      else if length H = 2 \<and> length (H ! 0) = 2 \<and> length (H ! 1) = 2
              \<and> H ! 0 ! 0 = H ! 1 ! 1 \<and> H ! 0 ! 1 = H ! 1 ! 0 \<and> H ! 0 ! 1 > 0
      then Inr ([Complex (H ! 0 ! 0 - H ! 0 ! 1) 0, Complex (H ! 0 ! 0 + H ! 0 ! 1) 0],
                [[Complex (- (1 / sqrt 2)) 0, Complex (1 / sqrt 2) 0],
                 [Complex (1 / sqrt 2) 0, Complex (1 / sqrt 2) 0]])
      else Inl LinAlgError)"

text \<open>A callback that raises when it finds \<^verbatim>\<open>lindep\<close> above one half among the locals.\<close>

definition ex_callback :: "kwargs \<Rightarrow> nat \<Rightarrow> locals \<Rightarrow> bool" where
  "ex_callback k icyc s \<longleftrightarrow> k_lindep k > 1 / 2"

text \<open>The default keyword arguments of the two solvers.\<close>

definition default_kwargs :: kwargs where
  "default_kwargs =
     \<lparr>k_type = 1, k_tol = 1 / 10 ^ 14, k_max_cycle = 50, k_max_space = 12,
      k_lindep = 1 / 10 ^ 14, k_max_memory = 2000, k_nroots = 1, k_lessio = False,
      k_left = False\<rparr>"

definition ex_ops :: "(vec list \<Rightarrow> vec list \<times> vec list) \<Rightarrow> (vec \<Rightarrow> real \<Rightarrow> vec \<Rightarrow> vec) \<Rightarrow> callback \<Rightarrow> dgeev_ops" where
  "ex_ops abop precond cb =
     \<lparr>d_abop = abop, d_abop1 = (\<lambda>x. (hd (fst (abop [x])), hd (snd (abop [x])))),
      d_precond = precond, d_dot = numpy_dot, d_eigh = ex_eigh, d_callback = cb,
      d_memh = (\<lambda>i j. 0), d_mems = (\<lambda>i j. 0)\<rparr>"

definition ex_eig_ops :: "(vec list \<Rightarrow> vec list \<times> vec list) \<Rightarrow> (vec \<Rightarrow> real \<Rightarrow> vec \<Rightarrow> vec) \<Rightarrow> callback \<Rightarrow> eig_ops" where
  "ex_eig_ops abop precond cb =
     \<lparr>g_aop = (\<lambda>xs. fst (abop xs)), g_precond = precond, g_dot = numpy_dot, g_eig = ex_eig,
      g_pick = pickeig stable_argsort, g_callback = cb, g_memh = (\<lambda>i j. 0)\<rparr>"


text \<open>
  What the examples look at in the outcome of a loop: the way the loop was left, the number
  of cycles, and the locals \<^verbatim>\<open>e\<close> and \<^verbatim>\<open>x0\<close>.
\<close>

definition outcome :: "error + (exit \<times> nat \<times> locals) \<Rightarrow> error + (exit \<times> nat \<times> real list \<times> vec list)" where
  "outcome r = (case r of Inl err \<Rightarrow> Inl err | Inr (x, n, s) \<Rightarrow> Inr (x, n, v_e s, v_x0 s))"


text \<open>
  A callback does not look at \<^verbatim>\<open>lindep\<close> when another value of it among the locals never
  changes what the callback does.
\<close>

definition lindep_blind :: "callback \<Rightarrow> bool" where
  "lindep_blind c \<longleftrightarrow>
     (case c of None \<Rightarrow> True
      | Some cb \<Rightarrow> (\<forall>k i s a. cb (k\<lparr>k_lindep := a\<rparr>) i s = cb k i s))"

text \<open>A callback that never raises.\<close>

definition ex_callback_quiet :: "kwargs \<Rightarrow> nat \<Rightarrow> locals \<Rightarrow> bool" where
  "ex_callback_quiet k icyc s \<longleftrightarrow> False"


subsection \<open>What a stage leaves alone\<close>

text \<open>
  Relations between the locals before and after a stage of a cycle, used in the proofs:
  \<open>mat_frame\<close> for the stages that write the projected matrices only (and keep their
  sizes), \<open>ritz_frame\<close> for the stage that binds \<^verbatim>\<open>x0\<close>, \<^verbatim>\<open>ax0\<close> and \<^verbatim>\<open>bx0\<close> (with the number
  of Ritz vectors), \<open>late_frame\<close> for the stages after it, which bind \<^verbatim>\<open>xt\<close>, \<^verbatim>\<open>dx_norm\<close>
  and \<^verbatim>\<open>fresh_start\<close> only.
\<close>

definition mat_frame :: "locals \<Rightarrow> locals \<Rightarrow> bool" where
  "mat_frame s t \<longleftrightarrow>
     (\<exists>h sf. t = s\<lparr>v_heff := h, v_seff := sf\<rparr> \<and> m_dim h = m_dim (v_heff s)
        \<and> m_dim sf = m_dim (v_seff s))"

definition ritz_frame :: "nat \<Rightarrow> locals \<Rightarrow> locals \<Rightarrow> bool" where
  "ritz_frame n s t \<longleftrightarrow>
     t\<lparr>v_x0 := [], v_ax0 := [], v_bx0 := []\<rparr> = s\<lparr>v_x0 := [], v_ax0 := [], v_bx0 := []\<rparr>
     \<and> length (v_x0 t) = n"

definition late_frame :: "locals \<Rightarrow> locals \<Rightarrow> bool" where
  "late_frame s t \<longleftrightarrow>
     t\<lparr>v_xt := [], v_dx_norm := [], v_fresh_start := False\<rparr>
       = s\<lparr>v_xt := [], v_dx_norm := [], v_fresh_start := False\<rparr>"


text \<open>What the examples look at in the outcome of one cycle: how it ended, \<^verbatim>\<open>de\<close> and \<^verbatim>\<open>e\<close>.\<close>

definition cycle_view :: "error + (flow \<times> locals) \<Rightarrow> error + (flow \<times> real list \<times> real list)" where
  "cycle_view r = (case r of Inl err \<Rightarrow> Inl err | Inr (fl, s) \<Rightarrow> Inr (fl, v_de s, v_e s))"








section \<open>Verification\<close>

subsection \<open>Sequencing\<close>

lemma bindE_simps [simp]: "bindE (Inl err) f = Inl err" "bindE (Inr a) f = f a"
  by (simp_all add: bindE_def)

lemma bindE_eq_Inr: "bindE m f = Inr r \<longleftrightarrow> (\<exists>a. m = Inr a \<and> f a = Inr r)"
  by (cases m) simp_all


lemma dotl_Nil [simp]: "dotl [] y = 0" "dotl x [] = 0"
  by (simp_all add: dotl_def)

lemma dotl_Cons [simp]: "dotl (a # x) (b # y) = a * b + dotl x y"
  by (simp add: dotl_def)










lemma length_vscale [simp]: "length (vscale q c) = length q"
  by (simp add: vscale_def)

lemma length_vdiv [simp]: "length (vdiv q c) = length q"
  by (simp add: vdiv_def)








lemma forM_append: "forM (xs @ ys) f s = bindE (forM xs f s) (forM ys f)"
proof (induction xs arbitrary: s)
  case Nil then show ?case by simp
next
  case (Cons a xs)
  show ?case by (cases "f a s") (simp_all add: Cons)
qed

lemma bindE_forM_Nil [simp]: "bindE m (forM [] f) = m"
  by (cases m) simp_all









subsection \<open>The selector\<close>

lemma argsort_distinct:
  assumes "is_argsort argsort"
  shows "distinct (argsort a)"
proof -
  from assms have s: "set (argsort a) = {0..<length a}" and l: "length (argsort a) = length a"
    by (simp_all add: is_argsort_def)
  have "card (set (argsort a)) = length (argsort a)" using s l by simp
  then show ?thesis by (rule card_distinct)
qed

lemma realidx_of_set: "set (realidx_of w) = {i. i < length w \<and> Im (w ! i) = 0}"
  by (auto simp: realidx_of_def)

lemma realidx_of_distinct: "distinct (realidx_of w)"
  by (simp add: realidx_of_def)

lemma stable_argsort_ok: "is_argsort stable_argsort"
  by (auto simp: is_argsort_def stable_argsort_def)

lemma pickeig_sound:
  assumes A: "is_argsort argsort"
  shows "length (pickeig argsort w v nroots) = min nroots (length (realidx_of w))
     \<and> distinct (pickeig argsort w v nroots)
     \<and> (\<forall>i \<in> set (pickeig argsort w v nroots). i < length w \<and> Im (w ! i) = 0)
     \<and> sorted (map (\<lambda>i. Re (w ! i)) (pickeig argsort w v nroots))
     \<and> (\<forall>i \<in> set (pickeig argsort w v nroots). \<forall>j < length w.
           Im (w ! j) = 0 \<and> j \<notin> set (pickeig argsort w v nroots) \<longrightarrow> Re (w ! i) \<le> Re (w ! j))"
proof -
  define r where "r = realidx_of w"
  define keys where "keys = map (\<lambda>i. Re (w ! i)) r"
  define p where "p = argsort keys"
  define idx where "idx = pickeig argsort w v nroots"
  have idx: "idx = map (\<lambda>q. r ! q) (take nroots p)"
    by (simp add: idx_def pickeig_def r_def keys_def p_def Let_def)
  have lk: "length keys = length r" by (simp add: keys_def)
  from A have ps: "set p = {0..<length r}" and pl: "length p = length r"
    and psorted: "sorted (map (\<lambda>i. keys ! i) p)"
    using lk by (simp_all add: is_argsort_def p_def)
  have pd: "distinct p" using argsort_distinct[OF A] by (simp add: p_def)
  have inr: "\<And>q. q \<in> set (take nroots p) \<Longrightarrow> q < length r"
    using ps by (auto dest: in_set_takeD)
  have c1: "length idx = min nroots (length r)" by (simp add: idx pl min.commute)
  have inj: "inj_on (\<lambda>q. r ! q) (set (take nroots p))"
    using realidx_of_distinct[of w] inr
    by (auto simp: inj_on_def r_def nth_eq_iff_index_eq)
  have c2: "distinct idx"
    unfolding idx using pd inj by (simp add: distinct_map)
  have c3: "\<forall>i \<in> set idx. i < length w \<and> Im (w ! i) = 0"
  proof
    fix i assume "i \<in> set idx"
    then obtain q where q: "q \<in> set (take nroots p)" and i: "i = r ! q" by (auto simp: idx)
    from inr[OF q] have "r ! q \<in> set r" by simp
    then show "i < length w \<and> Im (w ! i) = 0" using i realidx_of_set[of w] by (simp add: r_def)
  qed
  have keyq: "\<And>q. q < length r \<Longrightarrow> keys ! q = Re (w ! (r ! q))" by (simp add: keys_def)
  have "map (\<lambda>i. Re (w ! i)) idx = map (\<lambda>q. keys ! q) (take nroots p)"
    unfolding idx using inr keyq by (simp add: comp_def)
  also have "\<dots> = take nroots (map (\<lambda>q. keys ! q) p)" by (simp add: take_map)
  finally have c4: "sorted (map (\<lambda>i. Re (w ! i)) idx)" using psorted by (simp add: sorted_wrt_take)
  have c5: "\<forall>i \<in> set idx. \<forall>j < length w. Im (w ! j) = 0 \<and> j \<notin> set idx \<longrightarrow> Re (w ! i) \<le> Re (w ! j)"
  proof (intro ballI allI impI)
    fix i j assume i: "i \<in> set idx" and j: "j < length w" and h: "Im (w ! j) = 0 \<and> j \<notin> set idx"
    from i obtain a where a: "a < length (take nroots p)" and ia: "i = r ! (take nroots p ! a)"
      by (auto simp: idx in_set_conv_nth)
    then have an: "a < nroots" and ap: "a < length p" by simp_all
    have ia': "i = r ! (p ! a)" using ia a by simp
    from j h have "j \<in> set r" using realidx_of_set[of w] by (simp add: r_def)
    then obtain q where q: "q < length r" and jq: "j = r ! q" by (auto simp: in_set_conv_nth)
    from q ps have "q \<in> set p" by simp
    then obtain b where b: "b < length p" and qb: "q = p ! b" by (auto simp: in_set_conv_nth)
    have "\<not> b < nroots"
    proof
      assume "b < nroots"
      then have "p ! b \<in> set (take nroots p)" using b by (auto simp: in_set_conv_nth intro!: exI[of _ b])
      then have "j \<in> set idx" using jq qb by (auto simp: idx)
      with h show False by simp
    qed
    then have ab: "a \<le> b" using an by simp
    have "map (\<lambda>i. keys ! i) p ! a \<le> map (\<lambda>i. keys ! i) p ! b"
      using psorted ab b by (simp add: sorted_iff_nth_mono)
    then have "keys ! (p ! a) \<le> keys ! (p ! b)" using ap b by simp
    moreover have "p ! a < length r" using ps ap by (metis atLeastLessThan_iff nth_mem)
    ultimately show "Re (w ! i) \<le> Re (w ! j)" using keyq q ia' jq qb by simp
  qed
  show ?thesis using c1 c2 c3 c4 c5 by (simp add: idx_def r_def)
qed


text \<open>
  C8: for every eigenvalue array \<open>w\<close>, matrix \<open>v\<close> and count \<open>nroots\<close>, \<^verbatim>\<open>pickeig\<close> returns
  at most \<open>nroots\<close> positions (as many as there are real eigenvalues, if fewer), without
  repetition, each of an eigenvalue of \<open>w\<close> with imaginary part exactly zero; the selected
  eigenvalues are listed by ascending real part, and no real eigenvalue left out is
  smaller than a selected one.
\<close>

theorem pickeig_selects:
  assumes A: "is_argsort argsort"
  shows "length (pickeig argsort w v nroots) = min nroots (length (realidx_of w))
     \<and> distinct (pickeig argsort w v nroots)
     \<and> (\<forall>i \<in> set (pickeig argsort w v nroots). i < length w \<and> Im (w ! i) = 0)
     \<and> sorted (map (\<lambda>i. Re (w ! i)) (pickeig argsort w v nroots))
     \<and> (\<forall>i \<in> set (pickeig argsort w v nroots). \<forall>j < length w.
           Im (w ! j) = 0 \<and> j \<notin> set (pickeig argsort w v nroots) \<longrightarrow> Re (w ! i) \<le> Re (w ! j))"
  using A by (rule pickeig_sound)

theorem pickeig_selects_witness:
  "is_argsort stable_argsort
   \<and> pickeig stable_argsort [Complex 3 0, Complex 1 1, Complex (- 2) 0, Complex 5 0] () 2 = [2, 0]
   \<and> length (pickeig stable_argsort [Complex 3 0, Complex 1 1, Complex (- 2) 0, Complex 5 0] () 2)
       = min 2 (length (realidx_of [Complex 3 0, Complex 1 1, Complex (- 2) 0, Complex 5 0]))
   \<and> sorted (map (\<lambda>i. Re ([Complex 3 0, Complex 1 1, Complex (- 2) 0, Complex 5 0] ! i))
        (pickeig stable_argsort [Complex 3 0, Complex 1 1, Complex (- 2) 0, Complex 5 0] () 2))"
proof -
  have v: "pickeig stable_argsort [Complex 3 0, Complex 1 1, Complex (- 2) 0, Complex 5 0] () 2 = [2, 0]"
    by (simp add: pickeig_def realidx_of_def stable_argsort_def upt_rec)
  show ?thesis
    using pickeig_selects[OF stable_argsort_ok,
        of "[Complex 3 0, Complex 1 1, Complex (- 2) 0, Complex 5 0]" "()" 2]
      stable_argsort_ok v
    by simp
qed


subsection \<open>Loops\<close>

lemma forM_inv:
  assumes "forM xs f s = Inr s'" and "I s"
    and "\<And>x a b. x \<in> set xs \<Longrightarrow> I a \<Longrightarrow> f x a = Inr b \<Longrightarrow> I b"
  shows "I s'"
  using assms
proof (induction xs arbitrary: s)
  case Nil then show ?case by simp
next
  case (Cons x xs)
  from Cons.prems(1) obtain a where a: "f x s = Inr a" and r: "forM xs f a = Inr s'"
    by (auto simp: bindE_eq_Inr)
  have "I a" using Cons.prems(3)[of x s a] Cons.prems(2) a by simp
  then show ?case using Cons.prems(3) by (intro Cons.IH[OF r]) auto
qed

lemma forM_upt_inv:
  assumes "forM [0..<n] f s = Inr s'" and "I 0 s"
    and "\<And>j a b. j < n \<Longrightarrow> I j a \<Longrightarrow> f j a = Inr b \<Longrightarrow> I (Suc j) b"
  shows "I n s'"
  using assms
proof (induction n arbitrary: s')
  case 0 then show ?case by simp
next
  case (Suc n)
  from Suc.prems(1) obtain a where a: "forM [0..<n] f s = Inr a" and r: "f n a = Inr s'"
    by (auto simp: forM_append bindE_eq_Inr)
  have "I n a" using Suc.IH[OF a Suc.prems(2)] Suc.prems(3) by simp
  then show ?case using Suc.prems(3)[of n a s'] r by simp
qed

lemma cycles_count:
  "cycles body n i s = Inr (x, ncyc, s') \<Longrightarrow> ncyc = i + cycles_begun body n i s"
proof (induction n arbitrary: i s)
  case 0 then show ?case by simp
next
  case (Suc n)
  show ?case
  proof (cases "body i s")
    case (Inl err) with Suc.prems show ?thesis by simp
  next
    case (Inr p)
    obtain fl t where p: "p = (fl, t)" by (cases p)
    show ?thesis
    proof (cases fl)
      case Continue
      with Suc.prems Inr p have "cycles body n (Suc i) t = Inr (x, ncyc, s')" by simp
      from Suc.IH[OF this] show ?thesis using Inr p Continue by simp
    next
      case (Break y)
      with Suc.prems Inr p show ?thesis by simp
    qed
  qed
qed

lemma cycles_begun_le: "cycles_begun body n i s \<le> n"
proof (induction n arbitrary: i s)
  case 0 then show ?case by simp
next
  case (Suc n)
  show ?case
  proof (cases "body i s")
    case (Inl err) then show ?thesis by simp
  next
    case (Inr p)
    obtain fl t where p: "p = (fl, t)" by (cases p)
    show ?thesis using Inr p Suc.IH[of "Suc i" t] by (cases fl) simp_all
  qed
qed

lemma prologue_max_cycle:
  "prologue f g k = Inr (x0, k', incore) \<Longrightarrow>
     k_max_cycle k' = min (k_max_cycle k) (length (hd (guess_list g))) \<and> x0 = guess_list g
     \<and> k_max_space k' = k_max_space k + k_nroots k * 2 \<and> k_nroots k' = k_nroots k
     \<and> k_tol k' = k_tol k \<and> k_type k' = k_type k \<and> k_lessio k' = k_lessio k
     \<and> guess_list g \<noteq> [] \<and> hd (guess_list g) \<noteq> []"
  by (cases "guess_list g") (auto simp: prologue_def nth_E_def Let_def bindE_eq_Inr split: if_splits)


subsection \<open>Evaluation of the examples\<close>

lemma sqrt_tol: "sqrt (1 / 100000000000000) = 1 / 10000000"
  by (rule real_sqrt_unique) (simp_all add: power2_eq_square)

lemmas vec_defs = dotl_def numpy_dot_def numpy_helper_norm_def vscale_def vdiv_def
  np_binop_def np_inplace_def np_sub_def isub_def iadd_def
lemmas aux_defs = py_get_def nth_E_def get2_def py_max_def numpy_argmax_def
  numpy_empty_def mat_set_def mat_get_def block_def assign_dot_def assign_conj_def
  not_None_def List.map_filter_def Xlist_def new_store_def toloose_of_def guess_list_def
lemmas qr_defs = qr_def qr_body_def qr_project_def
lemmas shared_defs = prologue_def init_locals_def cycle_head_def de_converged_def
  precond_step_def project_one_def prune_def cycle_tail_def return_stmt_def
  comb_append_def comb_add_def
lemmas dgeev_defs = dgeev_append_def dgeev_apply_def hleft_def dgeev_fill4_def
  dgeev_fill_col_def dgeev_fill_def dgeev_solve_def dgeev_ritz_stored_def ritz_vectors_def
  dgeev_ritz_def dgeev_residual_def dgeev_trial_def dgeev_cycle_def dgeev_run_def
  dgeev_finish_def dgeev_def dgeev_cycles_begun_def dgeev_spaces_def
lemmas ex_defs = ex_abop_id_def ex_abop_zero_def ex_abop_ones_def ex_abop_tri_def ex_abop_short_def
  ex_precond_id_def ex_precond_e1_def ex_eigh_def ex_eig_def ex_callback_def
  default_kwargs_def ex_ops_def ex_eig_ops_def outcome_def sqrt_tol
lemmas run_defs = dgeev_defs shared_defs qr_defs aux_defs vec_defs ex_defs upt_conv_Cons upt_conv_Nil Let_def

lemmas eig_defs = eig_append_def eig_apply_def eig_fill_new_def eig_fill_old_def eig_fill_def
  take_real_def take_cols_real_def eig_solve_def eig_ritz_stored_def ritz_vectors_def
  eig_ritz_def eig_residual_def eig_trial_def eig_cycle_def eig_run_def eig_def
  eig_cycles_begun_def eig_spaces_def pickeig_def realidx_of_def stable_argsort_def

lemmas erun_defs = eig_defs shared_defs qr_defs aux_defs vec_defs ex_defs upt_conv_Cons upt_conv_Nil Let_def

lemma outcome_Inr:
  "outcome r = Inr (x, n, e, x0) \<Longrightarrow> \<exists>s. r = Inr (x, n, s) \<and> v_e s = e \<and> v_x0 s = x0"
  by (auto simp: outcome_def split: sum.splits)


subsection \<open>The number of cycles\<close>

text \<open>
  C10: the loop body of \<^verbatim>\<open>dgeev\<close> and of \<^verbatim>\<open>eig\<close> is entered at most
  \<open>min max_cycle N\<close> times, \<open>N\<close> the size of the first guess vector, whether the call
  returns or raises; when the loop is left without an exception, the number of cycles it
  reports is that count. Both solvers are total functions of their arguments and
  collaborators.
\<close>

theorem cycle_bound:
  "dgeev_cycles_begun ops g k \<le> min (k_max_cycle k) (length (hd (guess_list g)))
   \<and> eig_cycles_begun ops' g k \<le> min (k_max_cycle k) (length (hd (guess_list g)))
   \<and> (\<forall>x ncyc s. dgeev_run ops g k = Inr (x, ncyc, s) \<longrightarrow> ncyc = dgeev_cycles_begun ops g k)
   \<and> (\<forall>x ncyc s. eig_run ops' g k = Inr (x, ncyc, s) \<longrightarrow> ncyc = eig_cycles_begun ops' g k)"
proof (intro conjI allI impI)
  show "dgeev_cycles_begun ops g k \<le> min (k_max_cycle k) (length (hd (guess_list g)))"
    unfolding dgeev_cycles_begun_def
    by (auto split: sum.splits dest!: prologue_max_cycle intro: order_trans[OF cycles_begun_le])
  show "eig_cycles_begun ops' g k \<le> min (k_max_cycle k) (length (hd (guess_list g)))"
    unfolding eig_cycles_begun_def
    by (auto split: sum.splits dest!: prologue_max_cycle intro: order_trans[OF cycles_begun_le])
next
  fix x ncyc s assume "dgeev_run ops g k = Inr (x, ncyc, s)"
  then show "ncyc = dgeev_cycles_begun ops g k"
    unfolding dgeev_run_def dgeev_cycles_begun_def
    by (auto simp: bindE_eq_Inr dest: cycles_count)
next
  fix x ncyc s assume "eig_run ops' g k = Inr (x, ncyc, s)"
  then show "ncyc = eig_cycles_begun ops' g k"
    unfolding eig_run_def eig_cycles_begun_def
    by (auto simp: bindE_eq_Inr dest: cycles_count split: if_splits)
qed


theorem cycle_bound_witness:
  "outcome (dgeev_run (ex_ops ex_abop_ones ex_precond_id None) (Array1 [1, 0]) default_kwargs)
     = Inr (ConvergedResidual, 2, [0], [[- (1 / sqrt 2), 1 / sqrt 2]])
   \<and> dgeev_cycles_begun (ex_ops ex_abop_ones ex_precond_id None) (Array1 [1, 0]) default_kwargs = 2
   \<and> outcome (eig_run (ex_eig_ops ex_abop_id ex_precond_id None) (Array1 [1, 0]) default_kwargs)
     = Inr (ConvergedResidual, 1, [1], [[1, 0]])
   \<and> eig_cycles_begun (ex_eig_ops ex_abop_id ex_precond_id None) (Array1 [1, 0]) default_kwargs = 1
   \<and> (2::nat) \<le> min (k_max_cycle default_kwargs) (length (hd (guess_list (Array1 [1, 0]))))"
proof -
  let ?ops = "ex_ops ex_abop_ones ex_precond_id None"
  let ?ops' = "ex_eig_ops ex_abop_id ex_precond_id None"
  have d: "outcome (dgeev_run ?ops (Array1 [1, 0]) default_kwargs)
     = Inr (ConvergedResidual, 2, [0], [[- (1 / sqrt 2), 1 / sqrt 2]])"
    by (simp add: run_defs)
  have e: "outcome (eig_run ?ops' (Array1 [1, 0]) default_kwargs)
     = Inr (ConvergedResidual, 1, [1], [[1, 0]])"
    by (simp add: erun_defs)
  from outcome_Inr[OF d] obtain s where s: "dgeev_run ?ops (Array1 [1, 0]) default_kwargs = Inr (ConvergedResidual, 2, s)"
    by blast
  from outcome_Inr[OF e] obtain t where t: "eig_run ?ops' (Array1 [1, 0]) default_kwargs = Inr (ConvergedResidual, 1, t)"
    by blast
  have m: "(2::nat) \<le> min (k_max_cycle default_kwargs) (length (hd (guess_list (Array1 [1, 0]))))"
    by (simp add: default_kwargs_def guess_list_def)
  note cb = cycle_bound[where ops = ?ops and g = "Array1 [1, 0]" and k = default_kwargs and ops' = ?ops']
  have b1: "dgeev_cycles_begun ?ops (Array1 [1, 0]) default_kwargs = 2"
    using cb s by metis
  have b2: "eig_cycles_begun ?ops' (Array1 [1, 0]) default_kwargs = 1"
    using cb t by metis
  show ?thesis
    using d b1 e b2 m by (intro conjI)
qed


subsection \<open>The argument \<^verbatim>\<open>lindep\<close>\<close>

lemma prologue_lindep:
  "prologue f g (k\<lparr>k_lindep := a\<rparr>) =
     (case prologue f g k of Inl err \<Rightarrow> Inl err
      | Inr (x0, k', incore) \<Rightarrow> Inr (x0, k'\<lparr>k_lindep := a\<rparr>, incore))"
  by (cases "nth_E (guess_list g) 0") (simp_all add: prologue_def Let_def)

lemma init_locals_lindep:
  "init_locals mh ms x0 (k\<lparr>k_lindep := a\<rparr>) incore = init_locals mh ms x0 k incore"
  by (simp add: init_locals_def)

lemma cycle_head_lindep: "cycle_head (k\<lparr>k_lindep := a\<rparr>) = cycle_head k"
  by (simp add: cycle_head_def fun_eq_iff)

lemma de_converged_lindep: "de_converged (k\<lparr>k_lindep := a\<rparr>) = de_converged k"
  by (simp add: de_converged_def fun_eq_iff)

lemma dgeev_apply_lindep: "dgeev_apply ops (k\<lparr>k_lindep := a\<rparr>) = dgeev_apply ops k"
  by (simp add: dgeev_apply_def fun_eq_iff)

lemma dgeev_fill4_lindep: "dgeev_fill4 ops (k\<lparr>k_lindep := a\<rparr>) = dgeev_fill4 ops k"
  by (simp add: dgeev_fill4_def hleft_def fun_eq_iff)

lemma dgeev_fill_col_lindep: "dgeev_fill_col ops (k\<lparr>k_lindep := a\<rparr>) = dgeev_fill_col ops k"
  by (simp add: dgeev_fill_col_def dgeev_fill4_lindep fun_eq_iff)

lemma dgeev_fill_lindep: "dgeev_fill ops (k\<lparr>k_lindep := a\<rparr>) = dgeev_fill ops k"
  by (simp add: dgeev_fill_def dgeev_fill_col_lindep fun_eq_iff)

lemma dgeev_solve_lindep: "dgeev_solve ops (k\<lparr>k_lindep := a\<rparr>) = dgeev_solve ops k"
  by (simp add: dgeev_solve_def fun_eq_iff cong: if_cong)

lemma dgeev_ritz_lindep: "dgeev_ritz ops (k\<lparr>k_lindep := a\<rparr>) = dgeev_ritz ops k"
  by (simp add: dgeev_ritz_def fun_eq_iff)

lemma dgeev_residual_lindep: "dgeev_residual (k\<lparr>k_lindep := a\<rparr>) = dgeev_residual k"
  by (simp add: dgeev_residual_def fun_eq_iff)

lemma eig_solve_lindep: "eig_solve ops (k\<lparr>k_lindep := a\<rparr>) = eig_solve ops k"
  by (simp add: eig_solve_def fun_eq_iff cong: if_cong)

lemma eig_ritz_lindep: "eig_ritz ops (k\<lparr>k_lindep := a\<rparr>) = eig_ritz ops k"
  by (simp add: eig_ritz_def fun_eq_iff)

lemma cycle_tail_lindep:
  "lindep_blind c \<Longrightarrow> cycle_tail c (k\<lparr>k_lindep := a\<rparr>) = cycle_tail c k"
  by (cases c) (simp_all add: cycle_tail_def fun_eq_iff lindep_blind_def Let_def)

lemmas lindep_simps = cycle_head_lindep de_converged_lindep dgeev_apply_lindep dgeev_fill_lindep
  dgeev_solve_lindep dgeev_ritz_lindep dgeev_residual_lindep eig_solve_lindep eig_ritz_lindep
  cycle_tail_lindep

lemma dgeev_cycle_lindep:
  "lindep_blind (d_callback ops) \<Longrightarrow> dgeev_cycle ops (k\<lparr>k_lindep := a\<rparr>) = dgeev_cycle ops k"
  by (simp add: dgeev_cycle_def fun_eq_iff lindep_simps cong: if_cong)

lemma eig_cycle_lindep:
  "lindep_blind (g_callback ops) \<Longrightarrow> eig_cycle ops (k\<lparr>k_lindep := a\<rparr>) = eig_cycle ops k"
  by (simp add: eig_cycle_def fun_eq_iff lindep_simps cong: if_cong)

lemma dgeev_lindep:
  assumes "lindep_blind (d_callback ops)"
  shows "dgeev ops g (k\<lparr>k_lindep := a\<rparr>) = dgeev ops g k"
proof -
  have "dgeev_run ops g (k\<lparr>k_lindep := a\<rparr>) = dgeev_run ops g k"
    by (cases "prologue 3 g k")
      (auto simp: dgeev_run_def prologue_lindep init_locals_lindep dgeev_cycle_lindep[OF assms])
  moreover have "dgeev_finish ops (k\<lparr>k_lindep := a\<rparr>) = dgeev_finish ops k"
    by (simp add: dgeev_finish_def return_stmt_def fun_eq_iff cong: if_cong)
  ultimately show ?thesis by (simp add: dgeev_def)
qed

lemma eig_lindep:
  assumes "lindep_blind (g_callback ops)"
  shows "eig ops g (k\<lparr>k_lindep := a\<rparr>) = eig ops g k"
proof -
  have "eig_run ops g (k\<lparr>k_lindep := a\<rparr>) = eig_run ops g k"
    by (cases "prologue 2 g k")
      (auto simp: eig_run_def prologue_lindep init_locals_lindep eig_cycle_lindep[OF assms])
  moreover have "return_stmt (k\<lparr>k_lindep := a\<rparr>) = return_stmt k"
    by (simp add: return_stmt_def fun_eq_iff cong: if_cong)
  ultimately show ?thesis by (simp add: eig_def)
qed


text \<open>
  C9 as stated fails: the callback receives \<^verbatim>\<open>locals()\<close>, \<^verbatim>\<open>lindep\<close> among them, and may
  raise because of its value. Two calls of \<^verbatim>\<open>dgeev\<close> that differ in \<^verbatim>\<open>lindep\<close> only: one is
  aborted by the callback in cycle 0, the other returns.
\<close>

theorem lindep_counterexample:
  "dgeev (ex_ops ex_abop_ones ex_precond_id (Some ex_callback)) (Array1 [1, 0])
       (default_kwargs\<lparr>k_lindep := 1\<rparr>) = Inl CallbackRaised
   \<and> dgeev (ex_ops ex_abop_ones ex_precond_id (Some ex_callback)) (Array1 [1, 0])
       (default_kwargs\<lparr>k_lindep := 1 / 10 ^ 14\<rparr>) = Inr (Single 0 [- (1 / sqrt 2), 1 / sqrt 2])"
  by (simp add: run_defs)


text \<open>
  C9, amended: when the callback (if there is one) does not look at \<^verbatim>\<open>lindep\<close>, two calls
  of \<^verbatim>\<open>dgeev\<close>, or of \<^verbatim>\<open>eig\<close>, that differ in \<^verbatim>\<open>lindep\<close> only have the same outcome: the
  same exception or the same eigenvalues and eigenvectors.
\<close>

theorem lindep_ignored:
  assumes "lindep_blind (d_callback ops)" and "lindep_blind (g_callback ops')"
  shows "dgeev ops g (k\<lparr>k_lindep := a\<rparr>) = dgeev ops g (k\<lparr>k_lindep := b\<rparr>)
     \<and> eig ops' g (k\<lparr>k_lindep := a\<rparr>) = eig ops' g (k\<lparr>k_lindep := b\<rparr>)"
  using dgeev_lindep[OF assms(1)] eig_lindep[OF assms(2)] by simp


theorem lindep_ignored_witness:
  "lindep_blind (d_callback (ex_ops ex_abop_ones ex_precond_id (Some ex_callback_quiet)))
   \<and> lindep_blind (g_callback (ex_eig_ops ex_abop_id ex_precond_id None))
   \<and> dgeev (ex_ops ex_abop_ones ex_precond_id (Some ex_callback_quiet)) (Array1 [1, 0])
       (default_kwargs\<lparr>k_lindep := 1\<rparr>) = Inr (Single 0 [- (1 / sqrt 2), 1 / sqrt 2])
   \<and> dgeev (ex_ops ex_abop_ones ex_precond_id (Some ex_callback_quiet)) (Array1 [1, 0])
       (default_kwargs\<lparr>k_lindep := 0\<rparr>) = Inr (Single 0 [- (1 / sqrt 2), 1 / sqrt 2])
   \<and> eig (ex_eig_ops ex_abop_id ex_precond_id None) (Array1 [1, 0]) (default_kwargs\<lparr>k_lindep := 1\<rparr>)
     = eig (ex_eig_ops ex_abop_id ex_precond_id None) (Array1 [1, 0]) (default_kwargs\<lparr>k_lindep := 0\<rparr>)"
proof -
  let ?ops = "ex_ops ex_abop_ones ex_precond_id (Some ex_callback_quiet)"
  let ?ops' = "ex_eig_ops ex_abop_id ex_precond_id None"
  have h1: "lindep_blind (d_callback ?ops)"
    by (simp add: lindep_blind_def ex_ops_def ex_callback_quiet_def)
  have h2: "lindep_blind (g_callback ?ops')"
    by (simp add: lindep_blind_def ex_eig_ops_def)
  have v: "dgeev ?ops (Array1 [1, 0]) (default_kwargs\<lparr>k_lindep := 1\<rparr>)
      = Inr (Single 0 [- (1 / sqrt 2), 1 / sqrt 2])"
    by (simp add: run_defs ex_callback_quiet_def)
  note li = lindep_ignored[OF h1 h2, where g = "Array1 [1, 0]" and k = default_kwargs and a = 1 and b = 0]
  have eq1: "dgeev ?ops (Array1 [1, 0]) (default_kwargs\<lparr>k_lindep := 0\<rparr>)
      = dgeev ?ops (Array1 [1, 0]) (default_kwargs\<lparr>k_lindep := 1\<rparr>)"
    using li by (rule conjunct1[THEN sym])
  have eq2: "eig ?ops' (Array1 [1, 0]) (default_kwargs\<lparr>k_lindep := 1\<rparr>)
      = eig ?ops' (Array1 [1, 0]) (default_kwargs\<lparr>k_lindep := 0\<rparr>)"
    using li by (rule conjunct2)
  have v0: "dgeev ?ops (Array1 [1, 0]) (default_kwargs\<lparr>k_lindep := 0\<rparr>)
      = Inr (Single 0 [- (1 / sqrt 2), 1 / sqrt 2])"
    using eq1 v by (rule trans)
  show ?thesis
    using h1 h2 v v0 eq2 by (intro conjI)
qed



subsection \<open>The stages of a cycle\<close>




lemma cycle_head_fresh:
  assumes "cycle_head k s = Inr s1" and "v_fresh_start s"
  shows "\<exists>q. qr (v_x0 s) = Inr q \<and>
     s1 = s\<lparr>v_xs := new_store (v_incore s), v_ax := new_store (v_incore s),
            v_bx := new_store (v_incore s), v_space := 0, v_xt := q,
            v_e := replicate (k_nroots k) 0, v_fresh_start := False\<rparr>"
  using assms by (auto simp: cycle_head_def bindE_eq_Inr)


lemma dgeev_append_shape:
  assumes "dgeev_append s = Inr s'"
  shows "\<exists>xs ax bx. s' = s\<lparr>v_xs := xs, v_ax := ax, v_bx := bx\<rparr>"
proof -
  have "\<exists>xs ax bx. s' = s\<lparr>v_xs := xs, v_ax := ax, v_bx := bx\<rparr>"
  proof (rule forM_inv[OF assms[unfolded dgeev_append_def],
        where I = "\<lambda>t. \<exists>xs ax bx. t = s\<lparr>v_xs := xs, v_ax := ax, v_bx := bx\<rparr>"])
    show "\<exists>xs ax bx. s = s\<lparr>v_xs := xs, v_ax := ax, v_bx := bx\<rparr>"
      by (rule exI[of _ "v_xs s"], rule exI[of _ "v_ax s"], rule exI[of _ "v_bx s"]) simp
  next
    fix x a b
    assume "\<exists>xs ax bx. a = s\<lparr>v_xs := xs, v_ax := ax, v_bx := bx\<rparr>"
      and "bindE (nth_E (v_axt a) x) (\<lambda>aa. bindE (nth_E (v_bxt a) x) (\<lambda>b.
                 Inr (a\<lparr>v_xs := v_xs a @ [v_xt a ! x], v_ax := v_ax a @ [aa],
                        v_bx := v_bx a @ [b]\<rparr>))) = Inr b"
    then show "\<exists>xs ax bx. b = s\<lparr>v_xs := xs, v_ax := ax, v_bx := bx\<rparr>"
      by (auto simp: bindE_eq_Inr; blast)
  qed
  then show ?thesis .
qed

lemma dgeev_apply_shape:
  assumes "dgeev_apply ops k s = Inr s'"
  shows "\<exists>xs ax bx axt bxt. s' = s\<lparr>v_axt := axt, v_bxt := bxt, v_xs := xs, v_ax := ax, v_bx := bx,
       v_rnow := length (v_xt s), v_head := v_space s, v_space := v_space s + length (v_xt s)\<rparr>"
  using assms
  by (auto simp: dgeev_apply_def bindE_eq_Inr Let_def split: prod.splits dest!: dgeev_append_shape; blast)

lemma mat_set_dim: "mat_set M i j a = Inr M' \<Longrightarrow> m_dim M' = m_dim M"
  by (auto simp: mat_set_def split: if_splits)

lemma assign_dot_dim: "assign_dot dot M r c xl xr = Inr M' \<Longrightarrow> m_dim M' = m_dim M"
  by (auto simp: assign_dot_def bindE_eq_Inr dest: mat_set_dim)

lemma assign_conj_dim: "assign_conj M r c = Inr M' \<Longrightarrow> m_dim M' = m_dim M"
  by (auto simp: assign_conj_def bindE_eq_Inr dest: mat_set_dim)

lemma mat_frame_refl: "mat_frame s s"
  unfolding mat_frame_def
  by (rule exI[of _ "v_heff s"], rule exI[of _ "v_seff s"]) simp

lemma mat_frame_trans: "mat_frame s t \<Longrightarrow> mat_frame t u \<Longrightarrow> mat_frame s u"
  unfolding mat_frame_def by (auto; blast)

lemma dgeev_fill4_frame:
  "dgeev_fill4 ops k i aimg bimg j kk s = Inr t \<Longrightarrow> mat_frame s t"
  unfolding mat_frame_def dgeev_fill4_def
  by (auto simp: bindE_eq_Inr dest!: assign_dot_dim assign_conj_dim; blast)

lemma forM_frame:
  assumes "forM xs f s = Inr t" and "\<And>x a b. x \<in> set xs \<Longrightarrow> f x a = Inr b \<Longrightarrow> mat_frame a b"
  shows "mat_frame s t"
  by (rule forM_inv[OF assms(1), where I = "mat_frame s"])
     (auto intro: mat_frame_refl mat_frame_trans assms(2))

lemma dgeev_fill_col_frame: "dgeev_fill_col ops k i s = Inr t \<Longrightarrow> mat_frame s t"
  unfolding dgeev_fill_col_def
  by (auto split: if_splits elim!: forM_frame dgeev_fill4_frame)

lemma dgeev_fill_frame: "dgeev_fill ops k s = Inr t \<Longrightarrow> mat_frame s t"
  unfolding dgeev_fill_def
  by (erule forM_frame) (erule dgeev_fill_col_frame)

lemma dgeev_solve_shape:
  assumes "dgeev_solve ops k s = Inr t"
  shows "\<exists>w v de. d_eigh ops (block (v_heff s) (v_space s)) (block (v_seff s) (v_space s)) = Inr (w, v)
     \<and> (if v_space s < k_nroots k \<or> length (v_e s) \<noteq> k_nroots k
         then Inr (take (k_nroots k) w) else np_sub (take (k_nroots k) w) (v_e s)) = Inr de
     \<and> t = s\<lparr>v_w := w, v_v := v, v_de := de, v_e := take (k_nroots k) w\<rparr>"
  using assms unfolding dgeev_solve_def
  by (auto simp: bindE_eq_Inr split: prod.splits if_splits)

lemma comb_append_length: "comb_append store s k acc = Inr x \<Longrightarrow> length x = Suc (length acc)"
  by (auto simp: comb_append_def bindE_eq_Inr)

lemma comb_add_length: "comb_add xsi s i k acc = Inr x \<Longrightarrow> length x = length acc"
  by (auto simp: comb_add_def bindE_eq_Inr)

lemma ritz_frame_init: "ritz_frame 0 s (s\<lparr>v_x0 := [], v_ax0 := [], v_bx0 := []\<rparr>)"
  by (simp add: ritz_frame_def)

lemma ritz_frame_upd:
  "ritz_frame n s t \<Longrightarrow> length x = m \<Longrightarrow> ritz_frame m s (t\<lparr>v_x0 := x, v_ax0 := a, v_bx0 := b\<rparr>)"
  by (simp add: ritz_frame_def)

lemma ritz_frame_upd1:
  "ritz_frame n s t \<Longrightarrow> length x = m \<Longrightarrow> ritz_frame m s (t\<lparr>v_x0 := x\<rparr>)"
  by (simp add: ritz_frame_def)

lemma ritz_frame_upd2:
  "ritz_frame n s t \<Longrightarrow> length x = m \<Longrightarrow> ritz_frame m s (t\<lparr>v_x0 := x, v_ax0 := a\<rparr>)"
  by (simp add: ritz_frame_def)

lemma ritz_frame_images:
  "ritz_frame n s t \<Longrightarrow> ritz_frame n s (t\<lparr>v_ax0 := a, v_bx0 := b\<rparr>)"
  by (simp add: ritz_frame_def)

lemma ritz_frame_image:
  "ritz_frame n s t \<Longrightarrow> ritz_frame n s (t\<lparr>v_ax0 := a\<rparr>)"
  by (simp add: ritz_frame_def)

lemma ritz_frame_sel:
  assumes "ritz_frame n s t"
  shows "length (v_x0 t) = n" and "v_e t = v_e s" and "v_space t = v_space s"
    and "v_de t = v_de s" and "v_fresh_start t = v_fresh_start s" and "v_heff t = v_heff s"
    and "v_xs t = v_xs s" and "v_incore t = v_incore s" and "v_w t = v_w s" and "v_v t = v_v s"
proof -
  from assms have eq: "t\<lparr>v_x0 := [], v_ax0 := [], v_bx0 := []\<rparr> = s\<lparr>v_x0 := [], v_ax0 := [], v_bx0 := []\<rparr>"
    and l: "length (v_x0 t) = n" by (simp_all add: ritz_frame_def)
  show "length (v_x0 t) = n" by (rule l)
  show "v_e t = v_e s" using arg_cong[OF eq, of v_e] by simp
  show "v_space t = v_space s" using arg_cong[OF eq, of v_space] by simp
  show "v_de t = v_de s" using arg_cong[OF eq, of v_de] by simp
  show "v_fresh_start t = v_fresh_start s" using arg_cong[OF eq, of v_fresh_start] by simp
  show "v_heff t = v_heff s" using arg_cong[OF eq, of v_heff] by simp
  show "v_xs t = v_xs s" using arg_cong[OF eq, of v_xs] by simp
  show "v_incore t = v_incore s" using arg_cong[OF eq, of v_incore] by simp
  show "v_w t = v_w s" using arg_cong[OF eq, of v_w] by simp
  show "v_v t = v_v s" using arg_cong[OF eq, of v_v] by simp
qed

lemma dgeev_ritz_stored_frame:
  assumes "dgeev_ritz_stored s = Inr t"
  shows "ritz_frame (length (v_e s)) s t"
proof -
  let ?n = "length (v_e s)"
  from assms obtain u where
    1: "forM [0..<?n]
              (\<lambda>k s. bindE (comb_append (v_xs s) s k (v_x0 s)) (\<lambda>x.
                      bindE (comb_append (v_ax s) s k (v_ax0 s)) (\<lambda>a.
                      bindE (comb_append (v_bx s) s k (v_bx0 s)) (\<lambda>b.
                        Inr (s\<lparr>v_x0 := x, v_ax0 := a, v_bx0 := b\<rparr>)))))
              (s\<lparr>v_x0 := [], v_ax0 := [], v_bx0 := []\<rparr>) = Inr u"
    and 2: "forM (rev [0..<v_space s - 1])
          (\<lambda>i s. bindE (nth_E (v_xs s) i) (\<lambda>xsi.
                  bindE (nth_E (v_ax s) i) (\<lambda>axi.
                  bindE (nth_E (v_bx s) i) (\<lambda>bxi.
                    forM [0..<length (v_e s)]
                      (\<lambda>k s. bindE (comb_add xsi s i k (v_x0 s)) (\<lambda>x.
                              bindE (comb_add axi s i k (v_ax0 s)) (\<lambda>a.
                              bindE (comb_add bxi s i k (v_bx0 s)) (\<lambda>b.
                                Inr (s\<lparr>v_x0 := x, v_ax0 := a, v_bx0 := b\<rparr>)))))
                      s)))) u = Inr t"
    unfolding dgeev_ritz_stored_def by (auto simp: bindE_eq_Inr)
  have u: "ritz_frame ?n s u"
    by (rule forM_upt_inv[OF 1, where I = "\<lambda>j t. ritz_frame j s t"])
       (auto simp: bindE_eq_Inr ritz_frame_init intro!: ritz_frame_upd
             dest!: comb_append_length dest: ritz_frame_sel(1))
  show ?thesis
  proof (rule forM_inv[OF 2, where I = "ritz_frame ?n s"])
    show "ritz_frame ?n s u" by (rule u)
  next
    fix i a b
    assume a: "ritz_frame ?n s a"
      and "bindE (nth_E (v_xs a) i) (\<lambda>xsi.
                  bindE (nth_E (v_ax a) i) (\<lambda>axi.
                  bindE (nth_E (v_bx a) i) (\<lambda>bxi.
                    forM [0..<length (v_e a)]
                      (\<lambda>k s. bindE (comb_add xsi s i k (v_x0 s)) (\<lambda>x.
                              bindE (comb_add axi s i k (v_ax0 s)) (\<lambda>a.
                              bindE (comb_add bxi s i k (v_bx0 s)) (\<lambda>b.
                                Inr (s\<lparr>v_x0 := x, v_ax0 := a, v_bx0 := b\<rparr>)))))
                      a))) = Inr b"
    then obtain xsi axi bxi where
      f: "forM [0..<length (v_e a)]
                      (\<lambda>k s. bindE (comb_add xsi s i k (v_x0 s)) (\<lambda>x.
                              bindE (comb_add axi s i k (v_ax0 s)) (\<lambda>a.
                              bindE (comb_add bxi s i k (v_bx0 s)) (\<lambda>b.
                                Inr (s\<lparr>v_x0 := x, v_ax0 := a, v_bx0 := b\<rparr>)))))
                      a = Inr b"
      by (auto simp: bindE_eq_Inr)
    show "ritz_frame ?n s b"
      by (rule forM_inv[OF f, where I = "ritz_frame ?n s"])
         (auto simp: bindE_eq_Inr a intro!: ritz_frame_upd dest!: comb_add_length dest: ritz_frame_sel(1))
  qed
qed

lemma ritz_vectors_frame:
  assumes "ritz_vectors s = Inr t"
  shows "ritz_frame (length (v_e s)) s t"
proof -
  let ?n = "length (v_e s)"
  from assms obtain u where
    1: "forM [0..<?n]
              (\<lambda>k s. bindE (comb_append (v_xs s) s k (v_x0 s)) (\<lambda>x. Inr (s\<lparr>v_x0 := x\<rparr>)))
              (s\<lparr>v_x0 := [], v_ax0 := [], v_bx0 := []\<rparr>) = Inr u"
    and 2: "forM (rev [0..<v_space s - 1])
          (\<lambda>i s. bindE (nth_E (v_xs s) i) (\<lambda>xsi.
                    forM [0..<length (v_e s)]
                      (\<lambda>k s. bindE (comb_add xsi s i k (v_x0 s)) (\<lambda>x. Inr (s\<lparr>v_x0 := x\<rparr>)))
                      s)) u = Inr t"
    unfolding ritz_vectors_def by (auto simp: bindE_eq_Inr)
  have u: "ritz_frame ?n s u"
    by (rule forM_upt_inv[OF 1, where I = "\<lambda>j t. ritz_frame j s t"])
       (auto simp: bindE_eq_Inr ritz_frame_init intro!: ritz_frame_upd1
             dest!: comb_append_length dest: ritz_frame_sel(1))
  show ?thesis
  proof (rule forM_inv[OF 2, where I = "ritz_frame ?n s"])
    show "ritz_frame ?n s u" by (rule u)
  next
    fix i a b
    assume a: "ritz_frame ?n s a"
      and "bindE (nth_E (v_xs a) i) (\<lambda>xsi.
                    forM [0..<length (v_e a)]
                      (\<lambda>k s. bindE (comb_add xsi s i k (v_x0 s)) (\<lambda>x. Inr (s\<lparr>v_x0 := x\<rparr>)))
                      a) = Inr b"
    then obtain xsi where
      f: "forM [0..<length (v_e a)]
                      (\<lambda>k s. bindE (comb_add xsi s i k (v_x0 s)) (\<lambda>x. Inr (s\<lparr>v_x0 := x\<rparr>)))
                      a = Inr b"
      by (auto simp: bindE_eq_Inr)
    show "ritz_frame ?n s b"
      by (rule forM_inv[OF f, where I = "ritz_frame ?n s"])
         (auto simp: bindE_eq_Inr a intro!: ritz_frame_upd1 dest!: comb_add_length dest: ritz_frame_sel(1))
  qed
qed

lemma dgeev_ritz_frame:
  assumes "dgeev_ritz ops k s = Inr t"
  shows "ritz_frame (length (v_e s)) s t"
proof (cases "k_lessio k \<and> \<not> v_incore s")
  case True
  with assms obtain u where u: "ritz_vectors s = Inr u"
    and t: "t = u\<lparr>v_ax0 := (if k_type k > 1 then fst (d_abop ops (snd (d_abop ops (v_x0 u))))
                            else fst (d_abop ops (v_x0 u))),
                 v_bx0 := snd (d_abop ops (v_x0 u))\<rparr>"
    unfolding dgeev_ritz_def by (auto simp: bindE_eq_Inr Let_def split_def)
  show ?thesis unfolding t by (rule ritz_frame_images[OF ritz_vectors_frame[OF u]])
next
  case False
  with assms show ?thesis unfolding dgeev_ritz_def by (auto dest: dgeev_ritz_stored_frame)
qed

lemma late_frame_refl: "late_frame s s"
  by (simp add: late_frame_def)

lemma late_frame_trans: "late_frame s t \<Longrightarrow> late_frame t u \<Longrightarrow> late_frame s u"
  by (simp add: late_frame_def)

lemma late_frame_sel:
  assumes "late_frame s t"
  shows "v_e t = v_e s" and "v_x0 t = v_x0 s" and "v_space t = v_space s" and "v_de t = v_de s"
    and "v_heff t = v_heff s" and "v_xs t = v_xs s" and "v_incore t = v_incore s"
    and "v_w t = v_w s" and "v_v t = v_v s" and "v_seff t = v_seff s"
proof -
  from assms have eq: "t\<lparr>v_xt := [], v_dx_norm := [], v_fresh_start := False\<rparr>
       = s\<lparr>v_xt := [], v_dx_norm := [], v_fresh_start := False\<rparr>" by (simp add: late_frame_def)
  show "v_e t = v_e s" using arg_cong[OF eq, of v_e] by simp
  show "v_x0 t = v_x0 s" using arg_cong[OF eq, of v_x0] by simp
  show "v_space t = v_space s" using arg_cong[OF eq, of v_space] by simp
  show "v_de t = v_de s" using arg_cong[OF eq, of v_de] by simp
  show "v_heff t = v_heff s" using arg_cong[OF eq, of v_heff] by simp
  show "v_xs t = v_xs s" using arg_cong[OF eq, of v_xs] by simp
  show "v_incore t = v_incore s" using arg_cong[OF eq, of v_incore] by simp
  show "v_w t = v_w s" using arg_cong[OF eq, of v_w] by simp
  show "v_v t = v_v s" using arg_cong[OF eq, of v_v] by simp
  show "v_seff t = v_seff s" using arg_cong[OF eq, of v_seff] by simp
qed

lemma dgeev_residual_frame:
  assumes "dgeev_residual k s = Inr t"
  shows "late_frame s t \<and> v_fresh_start t = v_fresh_start s"
proof -
  let ?I = "\<lambda>u. late_frame s u \<and> v_fresh_start u = v_fresh_start s"
  show ?thesis
    by (rule forM_inv[OF assms[unfolded dgeev_residual_def], where I = ?I])
       (auto simp: late_frame_def bindE_eq_Inr)
qed

lemma dgeev_trial_frame:
  assumes "dgeev_trial precond toloose s = Inr t"
  shows "late_frame s t \<and> v_fresh_start t = v_fresh_start s"
  using assms unfolding dgeev_trial_def by (auto simp: bindE_eq_Inr late_frame_def)

lemma cycle_tail_cases:
  assumes "cycle_tail cb k i s = Inr (fl, t)"
  shows "late_frame s t
     \<and> (v_xt s = [] \<longrightarrow> fl = Break LinearDependency \<and> t = s)
     \<and> (v_xt s \<noteq> [] \<longrightarrow> fl = Continue \<and> v_xt t = v_xt s
          \<and> v_fresh_start t = (v_fresh_start s \<or> v_space s + length (v_xt s) > k_max_space k))"
  using assms unfolding cycle_tail_def
  by (auto simp: late_frame_def Let_def split: if_splits option.splits)

lemma dgeev_cycle_stages:
  assumes "dgeev_cycle ops k tlo i s = Inr (fl, t)"
  shows "\<exists>s1 s2 s3 s4 s5 conv. cycle_head k s = Inr s1 \<and> dgeev_apply ops k s1 = Inr s2
     \<and> dgeev_fill ops k s2 = Inr s3 \<and> dgeev_solve ops k s3 = Inr s4
     \<and> dgeev_ritz ops k s4 = Inr s5 \<and> de_converged k s5 = Inr conv
     \<and> late_frame s5 t
     \<and> (conv \<longrightarrow> fl = Break ConvergedDe \<and> t = s5)
     \<and> (fl = Break ConvergedDe \<longrightarrow> conv)
     \<and> (fl = Break LinearDependency \<longrightarrow> v_xt t = [])
     \<and> (fl = Continue \<longrightarrow> v_xt t \<noteq> [] \<and> \<not> v_fresh_start s5
           \<and> v_fresh_start t = (v_space t + length (v_xt t) > k_max_space k))"
proof -
  from assms obtain s1 s2 s3 s4 s5 conv where
    st: "cycle_head k s = Inr s1" "dgeev_apply ops k s1 = Inr s2" "dgeev_fill ops k s2 = Inr s3"
        "dgeev_solve ops k s3 = Inr s4" "dgeev_ritz ops k s4 = Inr s5" "de_converged k s5 = Inr conv"
    and rest: "(if conv then Inr (Break ConvergedDe, s5)
       else
         bindE (dgeev_residual k s5) (\<lambda>s6.
         bindE (py_max (v_dx_norm s6)) (\<lambda>m.
           if m < tlo then Inr (Break ConvergedResidual, s6)
           else
             bindE (dgeev_trial (d_precond ops) tlo s6) (\<lambda>s7.
               cycle_tail (d_callback ops) k i s7)))) = Inr (fl, t)"
    unfolding dgeev_cycle_def by (auto simp: bindE_eq_Inr)
  have f1: "\<not> v_fresh_start s1"
    using st(1) by (auto simp: cycle_head_def bindE_eq_Inr split: if_splits)
  have f2: "v_fresh_start s2 = v_fresh_start s1"
    using dgeev_apply_shape[OF st(2)] by auto
  have f3: "v_fresh_start s3 = v_fresh_start s2"
    using dgeev_fill_frame[OF st(3)] by (auto simp: mat_frame_def)
  have f4: "v_fresh_start s4 = v_fresh_start s3"
    using dgeev_solve_shape[OF st(4)] by auto
  have f5: "\<not> v_fresh_start s5"
    using ritz_frame_sel(5)[OF dgeev_ritz_frame[OF st(5)]] f1 f2 f3 f4 by simp
  have tail: "late_frame s5 t
     \<and> (conv \<longrightarrow> fl = Break ConvergedDe \<and> t = s5)
     \<and> (fl = Break ConvergedDe \<longrightarrow> conv)
     \<and> (fl = Break LinearDependency \<longrightarrow> v_xt t = [])
     \<and> (fl = Continue \<longrightarrow> v_xt t \<noteq> [] \<and> v_fresh_start t = (v_space t + length (v_xt t) > k_max_space k))"
  proof (cases conv)
    case True
    with rest show ?thesis by (auto simp: late_frame_refl)
  next
    case False
    with rest obtain s6 m where 6: "dgeev_residual k s5 = Inr s6" and m: "py_max (v_dx_norm s6) = Inr m"
      and r2: "(if m < tlo then Inr (Break ConvergedResidual, s6)
           else bindE (dgeev_trial (d_precond ops) tlo s6) (\<lambda>s7.
               cycle_tail (d_callback ops) k i s7)) = Inr (fl, t)"
      by (auto simp: bindE_eq_Inr)
    note fr6 = dgeev_residual_frame[OF 6]
    show ?thesis
    proof (cases "m < tlo")
      case True
      with r2 have "fl = Break ConvergedResidual" "t = s6" by simp_all
      then show ?thesis using fr6 False by simp
    next
      case False
      with r2 obtain s7 where 7: "dgeev_trial (d_precond ops) tlo s6 = Inr s7"
        and 8: "cycle_tail (d_callback ops) k i s7 = Inr (fl, t)" by (auto simp: bindE_eq_Inr)
      note fr7 = dgeev_trial_frame[OF 7]
      note ct = cycle_tail_cases[OF 8]
      have lf: "late_frame s5 t"
        using fr6 fr7 ct by (blast intro: late_frame_trans)
      have sp: "v_space s7 = v_space t" using late_frame_sel(3)[of s7 t] ct by simp
      have fs7: "\<not> v_fresh_start s7" using fr6 fr7 f5 by simp
      show ?thesis using lf ct \<open>\<not> conv\<close> sp fs7 by (cases "v_xt s7 = []") auto
    qed
  qed
  show ?thesis using st f5 tail by blast
qed

lemma eig_append_shape:
  assumes "eig_append s = Inr s'"
  shows "\<exists>xs ax. s' = s\<lparr>v_xs := xs, v_ax := ax\<rparr>"
proof -
  have "\<exists>xs ax. s' = s\<lparr>v_xs := xs, v_ax := ax\<rparr>"
  proof (rule forM_inv[OF assms[unfolded eig_append_def],
        where I = "\<lambda>t. \<exists>xs ax. t = s\<lparr>v_xs := xs, v_ax := ax\<rparr>"])
    show "\<exists>xs ax. s = s\<lparr>v_xs := xs, v_ax := ax\<rparr>"
      by (rule exI[of _ "v_xs s"], rule exI[of _ "v_ax s"]) simp
  next
    fix x a b
    assume "\<exists>xs ax. a = s\<lparr>v_xs := xs, v_ax := ax\<rparr>"
      and "bindE (nth_E (v_axt a) x) (\<lambda>aa.
                 Inr (a\<lparr>v_xs := v_xs a @ [v_xt a ! x], v_ax := v_ax a @ [aa]\<rparr>)) = Inr b"
    then show "\<exists>xs ax. b = s\<lparr>v_xs := xs, v_ax := ax\<rparr>"
      by (auto simp: bindE_eq_Inr; blast)
  qed
  then show ?thesis .
qed

lemma eig_apply_shape:
  assumes "eig_apply ops s = Inr s'"
  shows "\<exists>xs ax axt. s' = s\<lparr>v_axt := axt, v_xs := xs, v_ax := ax,
       v_rnow := length (v_xt s), v_head := v_space s, v_space := v_space s + length (v_xt s)\<rparr>"
  using assms
  by (auto simp: eig_apply_def bindE_eq_Inr dest!: eig_append_shape; blast)

lemma heff_frame:
  "assign_dot dot (v_heff s) r c xl xr = Inr h \<Longrightarrow> mat_frame s (s\<lparr>v_heff := h\<rparr>)"
  unfolding mat_frame_def
  by (rule exI[of _ h], rule exI[of _ "v_seff s"]) (auto dest: assign_dot_dim)

lemma heff_frame2:
  assumes "assign_dot dot (v_heff s) r c xl xr = Inr h1" and "assign_dot dot h1 r' c' xl' xr' = Inr h2"
  shows "mat_frame s (s\<lparr>v_heff := h2\<rparr>)"
  unfolding mat_frame_def
  by (rule exI[of _ h2], rule exI[of _ "v_seff s"])
     (use assign_dot_dim[OF assms(1)] assign_dot_dim[OF assms(2)] in simp)

lemma eig_fill_new_frame:
  assumes "eig_fill_new ops s = Inr t"
  shows "mat_frame s t"
proof (rule forM_frame[OF assms[unfolded eig_fill_new_def]])
  fix i and a b :: locals
  assume "forM [0..<v_rnow s]
          (\<lambda>kk s. bindE (assign_dot (g_dot ops) (v_heff s) (v_head s + kk) (v_head s + i)
                            (nth_E (v_xt s) kk) (nth_E (v_axt s) i))
                     (\<lambda>h. Inr (s\<lparr>v_heff := h\<rparr>))) a = Inr b"
  then show "mat_frame a b"
  proof (rule forM_frame)
    fix kk and c d :: locals
    assume "bindE (assign_dot (g_dot ops) (v_heff c) (v_head c + kk) (v_head c + i)
                            (nth_E (v_xt c) kk) (nth_E (v_axt c) i))
                     (\<lambda>h. Inr (c\<lparr>v_heff := h\<rparr>)) = Inr d"
    then obtain h where "assign_dot (g_dot ops) (v_heff c) (v_head c + kk) (v_head c + i)
                            (nth_E (v_xt c) kk) (nth_E (v_axt c) i) = Inr h" and "d = c\<lparr>v_heff := h\<rparr>"
      by (auto simp: bindE_eq_Inr)
    then show "mat_frame c d" using heff_frame by blast
  qed
qed

lemma eig_fill_old_frame:
  assumes "eig_fill_old ops s = Inr t"
  shows "mat_frame s t"
proof (rule forM_frame[OF assms[unfolded eig_fill_old_def]])
  fix i and a b :: locals
  assume "bindE (nth_E (v_ax a) i) (\<lambda>axi. bindE (nth_E (v_xs a) i) (\<lambda>xi.
                 forM [0..<v_rnow a]
                   (\<lambda>kk s. bindE (assign_dot (g_dot ops) (v_heff s) (v_head s + kk) i
                                     (nth_E (v_xt s) kk) (Inr axi)) (\<lambda>h1.
                            bindE (assign_dot (g_dot ops) h1 i (v_head s + kk)
                                     (Inr xi) (nth_E (v_axt s) kk)) (\<lambda>h2.
                              Inr (s\<lparr>v_heff := h2\<rparr>))))
                   a)) = Inr b"
  then obtain axi xi where f: "forM [0..<v_rnow a]
                   (\<lambda>kk s. bindE (assign_dot (g_dot ops) (v_heff s) (v_head s + kk) i
                                     (nth_E (v_xt s) kk) (Inr axi)) (\<lambda>h1.
                            bindE (assign_dot (g_dot ops) h1 i (v_head s + kk)
                                     (Inr xi) (nth_E (v_axt s) kk)) (\<lambda>h2.
                              Inr (s\<lparr>v_heff := h2\<rparr>))))
                   a = Inr b"
    by (auto simp: bindE_eq_Inr)
  show "mat_frame a b"
  proof (rule forM_frame[OF f])
    fix kk and c d :: locals
    assume "bindE (assign_dot (g_dot ops) (v_heff c) (v_head c + kk) i
                                     (nth_E (v_xt c) kk) (Inr axi)) (\<lambda>h1.
                            bindE (assign_dot (g_dot ops) h1 i (v_head c + kk)
                                     (Inr xi) (nth_E (v_axt c) kk)) (\<lambda>h2.
                              Inr (c\<lparr>v_heff := h2\<rparr>))) = Inr d"
    then obtain h1 h2 where "assign_dot (g_dot ops) (v_heff c) (v_head c + kk) i
                                     (nth_E (v_xt c) kk) (Inr axi) = Inr h1"
      and "assign_dot (g_dot ops) h1 i (v_head c + kk) (Inr xi) (nth_E (v_axt c) kk) = Inr h2"
      and "d = c\<lparr>v_heff := h2\<rparr>"
      by (auto simp: bindE_eq_Inr)
    then show "mat_frame c d" using heff_frame2 by blast
  qed
qed

lemma eig_fill_frame: "eig_fill ops s = Inr t \<Longrightarrow> mat_frame s t"
  unfolding eig_fill_def
  by (auto simp: bindE_eq_Inr dest!: eig_fill_new_frame eig_fill_old_frame intro: mat_frame_trans)

lemma take_real_length: "take_real w idx = Inr e \<Longrightarrow> e = map (\<lambda>i. Re (w ! i)) idx"
  by (auto simp: take_real_def split: if_splits)

lemma eig_solve_shape:
  assumes "eig_solve ops k s = Inr t"
  shows "\<exists>w v de vr. g_eig ops (block (v_heff s) (v_space s)) = Inr (w, v)
     \<and> (if length (g_pick ops w v (k_nroots k)) < k_nroots k \<or> length (v_e s) \<noteq> k_nroots k
         then Inr (map (\<lambda>i. Re (w ! i)) (g_pick ops w v (k_nroots k)))
         else np_sub (map (\<lambda>i. Re (w ! i)) (g_pick ops w v (k_nroots k))) (v_e s)) = Inr de
     \<and> t = s\<lparr>v_v := vr, v_de := de, v_e := map (\<lambda>i. Re (w ! i)) (g_pick ops w v (k_nroots k))\<rparr>"
proof -
  from assms obtain w v where wv: "g_eig ops (block (v_heff s) (v_space s)) = Inr (w, v)"
    unfolding eig_solve_def by (cases "g_eig ops (block (v_heff s) (v_space s))") auto
  let ?idx = "g_pick ops w v (k_nroots k)"
  from assms wv obtain de e vr where
    de: "(if length ?idx < k_nroots k \<or> length (v_e s) \<noteq> k_nroots k
                    then take_real w ?idx
                    else bindE (take_real w ?idx) (\<lambda>wr. np_sub wr (v_e s))) = Inr de"
    and e: "take_real w ?idx = Inr e" and t: "t = s\<lparr>v_v := vr, v_de := de, v_e := e\<rparr>"
    unfolding eig_solve_def by (simp add: Let_def bindE_eq_Inr) blast
  have e': "e = map (\<lambda>i. Re (w ! i)) ?idx" using e by (rule take_real_length)
  have "(if length ?idx < k_nroots k \<or> length (v_e s) \<noteq> k_nroots k
         then Inr (map (\<lambda>i. Re (w ! i)) ?idx)
         else np_sub (map (\<lambda>i. Re (w ! i)) ?idx) (v_e s)) = Inr de"
    using de e e' by (auto split: if_splits)
  then show ?thesis using wv t e' by blast
qed

lemma eig_ritz_stored_frame:
  assumes "eig_ritz_stored s = Inr t"
  shows "ritz_frame (length (v_e s)) s t"
proof -
  let ?n = "length (v_e s)"
  from assms obtain u where
    1: "forM [0..<?n]
              (\<lambda>k s. bindE (comb_append (v_xs s) s k (v_x0 s)) (\<lambda>x.
                      bindE (comb_append (v_ax s) s k (v_ax0 s)) (\<lambda>a.
                        Inr (s\<lparr>v_x0 := x, v_ax0 := a\<rparr>))))
              (s\<lparr>v_x0 := [], v_ax0 := []\<rparr>) = Inr u"
    and 2: "forM (rev [0..<v_space s - 1])
          (\<lambda>i s. bindE (nth_E (v_xs s) i) (\<lambda>xsi.
                  bindE (nth_E (v_ax s) i) (\<lambda>axi.
                    forM [0..<length (v_e s)]
                      (\<lambda>k s. bindE (comb_add xsi s i k (v_x0 s)) (\<lambda>x.
                              bindE (comb_add axi s i k (v_ax0 s)) (\<lambda>a.
                                Inr (s\<lparr>v_x0 := x, v_ax0 := a\<rparr>))))
                      s))) u = Inr t"
    unfolding eig_ritz_stored_def by (auto simp: bindE_eq_Inr)
  have i0: "ritz_frame 0 s (s\<lparr>v_x0 := [], v_ax0 := []\<rparr>)" by (simp add: ritz_frame_def)
  have u: "ritz_frame ?n s u"
    by (rule forM_upt_inv[OF 1, where I = "\<lambda>j t. ritz_frame j s t"])
       (auto simp: bindE_eq_Inr i0 intro!: ritz_frame_upd2
             dest!: comb_append_length dest: ritz_frame_sel(1))
  show ?thesis
  proof (rule forM_inv[OF 2, where I = "ritz_frame ?n s"])
    show "ritz_frame ?n s u" by (rule u)
  next
    fix i and a b :: locals
    assume a: "ritz_frame ?n s a"
      and "bindE (nth_E (v_xs a) i) (\<lambda>xsi.
                  bindE (nth_E (v_ax a) i) (\<lambda>axi.
                    forM [0..<length (v_e a)]
                      (\<lambda>k s. bindE (comb_add xsi s i k (v_x0 s)) (\<lambda>x.
                              bindE (comb_add axi s i k (v_ax0 s)) (\<lambda>a.
                                Inr (s\<lparr>v_x0 := x, v_ax0 := a\<rparr>))))
                      a)) = Inr b"
    then obtain xsi axi where
      f: "forM [0..<length (v_e a)]
                      (\<lambda>k s. bindE (comb_add xsi s i k (v_x0 s)) (\<lambda>x.
                              bindE (comb_add axi s i k (v_ax0 s)) (\<lambda>a.
                                Inr (s\<lparr>v_x0 := x, v_ax0 := a\<rparr>))))
                      a = Inr b"
      by (auto simp: bindE_eq_Inr)
    show "ritz_frame ?n s b"
      by (rule forM_inv[OF f, where I = "ritz_frame ?n s"])
         (auto simp: bindE_eq_Inr a intro!: ritz_frame_upd2 dest!: comb_add_length dest: ritz_frame_sel(1))
  qed
qed

lemma eig_ritz_frame:
  assumes "eig_ritz ops k s = Inr t"
  shows "ritz_frame (length (v_e s)) s t"
proof (cases "k_lessio k \<and> \<not> v_incore s")
  case True
  with assms obtain u where u: "ritz_vectors s = Inr u"
    and t: "t = u\<lparr>v_ax0 := g_aop ops (v_x0 u), v_bx0 := v_bx0 s\<rparr>"
    unfolding eig_ritz_def by (auto simp: bindE_eq_Inr)
  show ?thesis unfolding t by (rule ritz_frame_images[OF ritz_vectors_frame[OF u]])
next
  case False
  with assms show ?thesis unfolding eig_ritz_def by (auto dest: eig_ritz_stored_frame)
qed

lemma eig_residual_frame:
  assumes "eig_residual s = Inr t"
  shows "late_frame s t \<and> v_fresh_start t = v_fresh_start s"
proof -
  let ?I = "\<lambda>u. late_frame s u \<and> v_fresh_start u = v_fresh_start s"
  show ?thesis
    by (rule forM_inv[OF assms[unfolded eig_residual_def], where I = ?I])
       (auto simp: late_frame_def bindE_eq_Inr)
qed

lemma eig_trial_frame:
  assumes "eig_trial precond toloose s = Inr t"
  shows "late_frame s t \<and> v_fresh_start t = v_fresh_start s"
  using assms unfolding eig_trial_def by (auto simp: bindE_eq_Inr late_frame_def)

lemma eig_cycle_stages:
  assumes "eig_cycle ops k tlo i s = Inr (fl, t)"
  shows "\<exists>s1 s2 s3 s4 s5 conv. cycle_head k s = Inr s1 \<and> eig_apply ops s1 = Inr s2
     \<and> eig_fill ops s2 = Inr s3 \<and> eig_solve ops k s3 = Inr s4
     \<and> eig_ritz ops k s4 = Inr s5 \<and> de_converged k s5 = Inr conv
     \<and> late_frame s5 t
     \<and> (conv \<longrightarrow> fl = Break ConvergedDe \<and> t = s5)
     \<and> (fl = Break ConvergedDe \<longrightarrow> conv)
     \<and> (fl = Break LinearDependency \<longrightarrow> v_xt t = [])
     \<and> (fl = Continue \<longrightarrow> v_xt t \<noteq> [] \<and> \<not> v_fresh_start s5
           \<and> v_fresh_start t = (v_space t + length (v_xt t) > k_max_space k))"
proof -
  from assms obtain s1 s2 s3 s4 s5 conv where
    st: "cycle_head k s = Inr s1" "eig_apply ops s1 = Inr s2" "eig_fill ops s2 = Inr s3"
        "eig_solve ops k s3 = Inr s4" "eig_ritz ops k s4 = Inr s5" "de_converged k s5 = Inr conv"
    and rest: "(if conv then Inr (Break ConvergedDe, s5)
       else
         bindE (eig_residual s5) (\<lambda>s6.
         bindE (py_max (v_dx_norm s6)) (\<lambda>m.
           if m < tlo then Inr (Break ConvergedResidual, s6)
           else
             bindE (eig_trial (g_precond ops) tlo s6) (\<lambda>s7.
               cycle_tail (g_callback ops) k i s7)))) = Inr (fl, t)"
    unfolding eig_cycle_def by (auto simp: bindE_eq_Inr)
  have f1: "\<not> v_fresh_start s1"
    using st(1) by (auto simp: cycle_head_def bindE_eq_Inr split: if_splits)
  have f2: "v_fresh_start s2 = v_fresh_start s1"
    using eig_apply_shape[OF st(2)] by auto
  have f3: "v_fresh_start s3 = v_fresh_start s2"
    using eig_fill_frame[OF st(3)] by (auto simp: mat_frame_def)
  have f4: "v_fresh_start s4 = v_fresh_start s3"
    using eig_solve_shape[OF st(4)] by auto
  have f5: "\<not> v_fresh_start s5"
    using ritz_frame_sel(5)[OF eig_ritz_frame[OF st(5)]] f1 f2 f3 f4 by simp
  have tail: "late_frame s5 t
     \<and> (conv \<longrightarrow> fl = Break ConvergedDe \<and> t = s5)
     \<and> (fl = Break ConvergedDe \<longrightarrow> conv)
     \<and> (fl = Break LinearDependency \<longrightarrow> v_xt t = [])
     \<and> (fl = Continue \<longrightarrow> v_xt t \<noteq> [] \<and> v_fresh_start t = (v_space t + length (v_xt t) > k_max_space k))"
  proof (cases conv)
    case True
    with rest show ?thesis by (auto simp: late_frame_refl)
  next
    case False
    with rest obtain s6 m where 6: "eig_residual s5 = Inr s6" and m: "py_max (v_dx_norm s6) = Inr m"
      and r2: "(if m < tlo then Inr (Break ConvergedResidual, s6)
           else bindE (eig_trial (g_precond ops) tlo s6) (\<lambda>s7.
               cycle_tail (g_callback ops) k i s7)) = Inr (fl, t)"
      by (auto simp: bindE_eq_Inr)
    note fr6 = eig_residual_frame[OF 6]
    show ?thesis
    proof (cases "m < tlo")
      case True
      with r2 have "fl = Break ConvergedResidual" "t = s6" by simp_all
      then show ?thesis using fr6 False by simp
    next
      case False
      with r2 obtain s7 where 7: "eig_trial (g_precond ops) tlo s6 = Inr s7"
        and 8: "cycle_tail (g_callback ops) k i s7 = Inr (fl, t)" by (auto simp: bindE_eq_Inr)
      note fr7 = eig_trial_frame[OF 7]
      note ct = cycle_tail_cases[OF 8]
      have lf: "late_frame s5 t"
        using fr6 fr7 ct by (blast intro: late_frame_trans)
      have sp: "v_space s7 = v_space t" using late_frame_sel(3)[of s7 t] ct by simp
      have fs7: "\<not> v_fresh_start s7" using fr6 fr7 f5 by simp
      show ?thesis using lf ct \<open>\<not> conv\<close> sp fs7 by (cases "v_xt s7 = []") auto
    qed
  qed
  show ?thesis using st f5 tail by blast
qed


subsection \<open>What is returned\<close>

lemma cycles_last:
  assumes "cycles body n i s = Inr (x, ncyc, t)" and "ncyc \<noteq> i"
  shows "\<exists>j a fl. body j a = Inr (fl, t) \<and> (fl = Break x \<or> fl = Continue \<and> x = CyclesExhausted)"
  using assms
proof (induction n arbitrary: i s)
  case 0 then show ?case by simp
next
  case (Suc n)
  show ?case
  proof (cases "body i s")
    case (Inl err) with Suc.prems show ?thesis by simp
  next
    case (Inr p)
    obtain fl u where p: "p = (fl, u)" by (cases p)
    show ?thesis
    proof (cases fl)
      case (Break y)
      with Suc.prems Inr p have "x = y" "t = u" by simp_all
      then show ?thesis using Inr p Break by blast
    next
      case Continue
      with Suc.prems Inr p have c: "cycles body n (Suc i) u = Inr (x, ncyc, t)" by simp
      show ?thesis
      proof (cases "ncyc = Suc i")
        case True
        then have "n = 0 \<or> cycles_begun body n (Suc i) u = 0" using cycles_count[OF c] by simp
        then have "t = u \<and> x = CyclesExhausted"
        proof
          assume "n = 0" with c show ?thesis by simp
        next
          assume z: "cycles_begun body n (Suc i) u = 0"
          show ?thesis
          proof (cases n)
            case 0 with c show ?thesis by simp
          next
            case (Suc m)
            with z show ?thesis
              by (cases "body (Suc i) u") (auto split: prod.splits flow.splits)
          qed
        qed
        then show ?thesis using Inr p Continue by blast
      next
        case False
        from Suc.IH[OF c False] show ?thesis .
      qed
    qed
  qed
qed












subsection \<open>The first solve after a fresh start\<close>

lemma foldl_max_Max: "foldl max (a::real) l = Max (set (a # l))"
proof (induction l arbitrary: a)
  case Nil then show ?case by simp
next
  case (Cons b l)
  have "foldl max a (b # l) = Max (set (max a b # l))" using Cons by simp
  also have "\<dots> = Max (insert a (insert b (set l)))"
    by (cases "l = []") (auto simp: max_def Max_insert)
  finally show ?case by (simp add: insert_commute)
qed

lemma argmax_abs:
  assumes "numpy_argmax (map abs de) = Inr ide"
  shows "(\<bar>de ! ide\<bar> < tol) \<longleftrightarrow> (\<forall>x \<in> set de. \<bar>x\<bar> < (tol::real))"
proof -
  let ?l = "map abs de"
  from assms have ne: "de \<noteq> []" by (auto simp: numpy_argmax_def split: if_splits)
  define M where "M = foldl max (hd ?l) (tl ?l)"
  have M: "M = Max (set ?l)" using ne foldl_max_Max[of "hd ?l" "tl ?l"] by (simp add: M_def)
  have "M \<in> set ?l" unfolding M using ne by (intro Max_in) auto
  then obtain j where j: "j < length ?l" "?l ! j = M" by (auto simp: in_set_conv_nth)
  then have fne: "filter (\<lambda>i. ?l ! i = M) [0..<length ?l] \<noteq> []"
    by (auto simp: filter_empty_conv intro!: bexI[of _ j])
  have ide: "ide = hd (filter (\<lambda>i. ?l ! i = M) [0..<length ?l])"
    using assms ne by (simp add: numpy_argmax_def M_def)
  have "ide \<in> set (filter (\<lambda>i. ?l ! i = M) [0..<length ?l])" unfolding ide using fne by (rule hd_in_set)
  then have i: "ide < length de" "?l ! ide = M" by auto
  then have "\<bar>de ! ide\<bar> = M" by simp
  moreover have "(M < tol) \<longleftrightarrow> (\<forall>x \<in> set ?l. x < tol)"
    unfolding M using ne by (intro Max_less_iff) auto
  ultimately show ?thesis by auto
qed

lemma de_converged_iff:
  "de_converged k s = Inr conv \<Longrightarrow> conv \<longleftrightarrow> (\<forall>x \<in> set (v_de s). \<bar>x\<bar> < k_tol k)"
  unfolding de_converged_def by (auto simp: bindE_eq_Inr dest: argmax_abs)

lemma sub_zeros: "length x = n \<Longrightarrow> np_sub x (replicate n 0) = Inr x"
  by (auto simp: np_sub_def np_binop_def intro!: nth_equalityI)

lemma length_block: "length (block M n) = min n (m_dim M)"
  by (simp add: block_def)

lemma dgeev_fresh_de:
  assumes c: "dgeev_cycle ops k tlo i s = Inr (fl, t)" and fs: "v_fresh_start s"
    and dim: "k_nroots k \<le> m_dim (v_heff s)"
    and el: "\<forall>H S w v. d_eigh ops H S = Inr (w, v) \<longrightarrow> length w = length H"
  shows "v_de t = v_e t \<and> (fl = Break ConvergedDe \<longleftrightarrow> (\<forall>x \<in> set (v_e t). \<bar>x\<bar> < k_tol k))"
proof -
  from dgeev_cycle_stages[OF c] obtain s1 s2 s3 s4 s5 conv where
    1: "cycle_head k s = Inr s1" and 2: "dgeev_apply ops k s1 = Inr s2"
    and 3: "dgeev_fill ops k s2 = Inr s3" and 4: "dgeev_solve ops k s3 = Inr s4"
    and 5: "dgeev_ritz ops k s4 = Inr s5" and 6: "de_converged k s5 = Inr conv"
    and lf: "late_frame s5 t" and cv: "conv \<longrightarrow> fl = Break ConvergedDe" "fl = Break ConvergedDe \<longrightarrow> conv"
    by blast
  from cycle_head_fresh[OF 1 fs] have e1: "v_e s1 = replicate (k_nroots k) 0"
    and h1: "v_heff s1 = v_heff s" by auto
  from dgeev_apply_shape[OF 2] have e2: "v_e s2 = v_e s1" and h2: "v_heff s2 = v_heff s1" by auto
  from dgeev_fill_frame[OF 3] have e3: "v_e s3 = v_e s2" and h3: "m_dim (v_heff s3) = m_dim (v_heff s2)"
    by (auto simp: mat_frame_def)
  from dgeev_solve_shape[OF 4] obtain w v de where
    e: "d_eigh ops (block (v_heff s3) (v_space s3)) (block (v_seff s3) (v_space s3)) = Inr (w, v)"
    and de: "(if v_space s3 < k_nroots k \<or> length (v_e s3) \<noteq> k_nroots k
         then Inr (take (k_nroots k) w) else np_sub (take (k_nroots k) w) (v_e s3)) = Inr de"
    and s4: "s4 = s3\<lparr>v_w := w, v_v := v, v_de := de, v_e := take (k_nroots k) w\<rparr>" by blast
  have "length w = length (block (v_heff s3) (v_space s3))" using el e by blast
  then have lw: "length w = min (v_space s3) (m_dim (v_heff s3))" by (simp add: length_block)
  have e3': "v_e s3 = replicate (k_nroots k) 0" using e1 e2 e3 by simp
  have "de = take (k_nroots k) w"
  proof (cases "v_space s3 < k_nroots k")
    case True with de show ?thesis by simp
  next
    case False
    then have "length (take (k_nroots k) w) = k_nroots k" using lw dim h1 h2 h3 by simp
    from sub_zeros[OF this] de False e3' show ?thesis by simp
  qed
  then have "v_de s4 = v_e s4" using s4 by simp
  then have "v_de s5 = v_e s5" using ritz_frame_sel[OF dgeev_ritz_frame[OF 5]] by simp
  then have eq: "v_de t = v_e t" using late_frame_sel[OF lf] by simp
  have "conv \<longleftrightarrow> (\<forall>x \<in> set (v_de s5). \<bar>x\<bar> < k_tol k)" using 6 by (rule de_converged_iff)
  then show ?thesis using eq cv late_frame_sel[OF lf] by auto
qed

lemma eig_fresh_de:
  assumes c: "eig_cycle ops k tlo i s = Inr (fl, t)" and fs: "v_fresh_start s"
    and pl: "\<forall>w v n. length (g_pick ops w v n) \<le> n"
  shows "v_de t = v_e t \<and> (fl = Break ConvergedDe \<longleftrightarrow> (\<forall>x \<in> set (v_e t). \<bar>x\<bar> < k_tol k))"
proof -
  from eig_cycle_stages[OF c] obtain s1 s2 s3 s4 s5 conv where
    1: "cycle_head k s = Inr s1" and 2: "eig_apply ops s1 = Inr s2"
    and 3: "eig_fill ops s2 = Inr s3" and 4: "eig_solve ops k s3 = Inr s4"
    and 5: "eig_ritz ops k s4 = Inr s5" and 6: "de_converged k s5 = Inr conv"
    and lf: "late_frame s5 t" and cv: "conv \<longrightarrow> fl = Break ConvergedDe" "fl = Break ConvergedDe \<longrightarrow> conv"
    by blast
  from cycle_head_fresh[OF 1 fs] have e1: "v_e s1 = replicate (k_nroots k) 0" by auto
  from eig_apply_shape[OF 2] have e2: "v_e s2 = v_e s1" by auto
  from eig_fill_frame[OF 3] have e3: "v_e s3 = v_e s2" by (auto simp: mat_frame_def)
  from eig_solve_shape[OF 4] obtain w v de vr where
    de: "(if length (g_pick ops w v (k_nroots k)) < k_nroots k \<or> length (v_e s3) \<noteq> k_nroots k
         then Inr (map (\<lambda>i. Re (w ! i)) (g_pick ops w v (k_nroots k)))
         else np_sub (map (\<lambda>i. Re (w ! i)) (g_pick ops w v (k_nroots k))) (v_e s3)) = Inr de"
    and s4: "s4 = s3\<lparr>v_v := vr, v_de := de, v_e := map (\<lambda>i. Re (w ! i)) (g_pick ops w v (k_nroots k))\<rparr>"
    by blast
  let ?idx = "g_pick ops w v (k_nroots k)"
  have e3': "v_e s3 = replicate (k_nroots k) 0" using e1 e2 e3 by simp
  have "de = map (\<lambda>i. Re (w ! i)) ?idx"
  proof (cases "length ?idx < k_nroots k")
    case True with de show ?thesis by simp
  next
    case False
    then have "length (map (\<lambda>i. Re (w ! i)) ?idx) = k_nroots k" using pl[rule_format, of w v "k_nroots k"] by simp
    from sub_zeros[OF this] de False e3' show ?thesis by simp
  qed
  then have "v_de s4 = v_e s4" using s4 by simp
  then have "v_de s5 = v_e s5" using ritz_frame_sel[OF eig_ritz_frame[OF 5]] by simp
  then have eq: "v_de t = v_e t" using late_frame_sel[OF lf] by simp
  have "conv \<longleftrightarrow> (\<forall>x \<in> set (v_de s5). \<bar>x\<bar> < k_tol k)" using 6 by (rule de_converged_iff)
  then show ?thesis using eq cv late_frame_sel[OF lf] by auto
qed

lemma cycle_view_Inr:
  "cycle_view r = Inr (fl, de, e) \<Longrightarrow> \<exists>t. r = Inr (fl, t) \<and> v_de t = de \<and> v_e t = e"
  by (auto simp: cycle_view_def split: sum.splits)

lemma ex_eigh_length: "\<forall>H S w v. ex_eigh H S = Inr (w, v) \<longrightarrow> length w = length H"
  by (auto simp: ex_eigh_def split: if_splits)

lemma pickeig_length_le: "is_argsort argsort \<Longrightarrow> length (pickeig argsort w v n) \<le> n"
  using pickeig_sound[of argsort w v n] by simp

text \<open>
  C3 as stated fails: on a fresh start \<^verbatim>\<open>e\<close> is \<^verbatim>\<open>zeros(nroots)\<close>, and with at least
  \<^verbatim>\<open>nroots\<close> basis vectors the deltas are taken against these zeros. For the zero operator
  the first eigenvalue is 0, the delta is 0, and the delta test ends the run in the
  initial cycle.
\<close>

theorem first_solve_counterexample:
  "outcome (dgeev_run (ex_ops ex_abop_zero ex_precond_id None) (Array1 [1, 0]) default_kwargs)
     = Inr (ConvergedDe, 1, [0], [[1, 0]])"
  by (simp add: run_defs)

text \<open>
  C3, amended: in the cycle of a fresh start (the initial cycle included) the eigenvalues
  of the cycle before play no part: the deltas \<^verbatim>\<open>de\<close> are the new eigenvalues \<^verbatim>\<open>e\<close>
  themselves, and the delta test leaves the loop in that cycle exactly when every new
  eigenvalue has magnitude below \<^verbatim>\<open>tol\<close>. This for \<^verbatim>\<open>dgeev\<close> when the dense solver gives as
  many eigenvalues as its matrix has rows and \<^verbatim>\<open>heff\<close> has at least \<^verbatim>\<open>nroots\<close> rows (it has
  \<^verbatim>\<open>max_space + 2 * nroots\<close>), and for \<^verbatim>\<open>eig\<close> when the selector gives at most \<^verbatim>\<open>nroots\<close>
  positions.
\<close>

theorem first_solve_deltas:
  assumes "v_fresh_start s" and "k_nroots k \<le> m_dim (v_heff s)"
    and "\<forall>H S w v. d_eigh ops H S = Inr (w, v) \<longrightarrow> length w = length H"
    and "\<forall>w v n. length (g_pick ops' w v n) \<le> n"
  shows "(dgeev_cycle ops k tlo i s = Inr (fl, t) \<longrightarrow>
            v_de t = v_e t \<and> (fl = Break ConvergedDe \<longleftrightarrow> (\<forall>x \<in> set (v_e t). \<bar>x\<bar> < k_tol k)))
       \<and> (eig_cycle ops' k tlo i s = Inr (fl', t') \<longrightarrow>
            v_de t' = v_e t' \<and> (fl' = Break ConvergedDe \<longleftrightarrow> (\<forall>x \<in> set (v_e t'). \<bar>x\<bar> < k_tol k)))"
  using dgeev_fresh_de[OF _ assms(1,2,3)] eig_fresh_de[OF _ assms(1,4)] by blast


theorem first_solve_deltas_witness:
  "v_fresh_start (init_locals (\<lambda>i j. 0) (\<lambda>i j. 0) [[1, 0]] (default_kwargs\<lparr>k_max_space := 14\<rparr>) True)
   \<and> k_nroots (default_kwargs\<lparr>k_max_space := 14\<rparr>)
       \<le> m_dim (v_heff (init_locals (\<lambda>i j. 0) (\<lambda>i j. 0) [[1, 0]] (default_kwargs\<lparr>k_max_space := 14\<rparr>) True))
   \<and> (\<forall>w v n. length (g_pick (ex_eig_ops ex_abop_id ex_precond_id None) w v n) \<le> n)
   \<and> cycle_view (dgeev_cycle (ex_ops ex_abop_zero ex_precond_id None) (default_kwargs\<lparr>k_max_space := 14\<rparr>)
        (1 / 10 ^ 9) 0 (init_locals (\<lambda>i j. 0) (\<lambda>i j. 0) [[1, 0]] (default_kwargs\<lparr>k_max_space := 14\<rparr>) True))
       = Inr (Break ConvergedDe, [0], [0])
   \<and> cycle_view (eig_cycle (ex_eig_ops ex_abop_id ex_precond_id None) (default_kwargs\<lparr>k_max_space := 14\<rparr>)
        (1 / 10 ^ 9) 0 (init_locals (\<lambda>i j. 0) (\<lambda>i j. 0) [[1, 0]] (default_kwargs\<lparr>k_max_space := 14\<rparr>) True))
       = Inr (Break ConvergedResidual, [1], [1])
   \<and> \<bar>0 :: real\<bar> < k_tol (default_kwargs\<lparr>k_max_space := 14\<rparr>)
   \<and> \<not> \<bar>1 :: real\<bar> < k_tol (default_kwargs\<lparr>k_max_space := 14\<rparr>)"
proof -
  let ?k = "default_kwargs\<lparr>k_max_space := 14\<rparr>"
  let ?s = "init_locals (\<lambda>i j. 0) (\<lambda>i j. 0) [[1, 0]] ?k True"
  let ?ops = "ex_ops ex_abop_zero ex_precond_id None"
  let ?ops' = "ex_eig_ops ex_abop_id ex_precond_id None"
  have h1: "v_fresh_start ?s" by (simp add: init_locals_def)
  have h2: "k_nroots ?k \<le> m_dim (v_heff ?s)"
    by (simp add: init_locals_def numpy_empty_def default_kwargs_def)
  have h3: "\<forall>H S w v. d_eigh ?ops H S = Inr (w, v) \<longrightarrow> length w = length H"
    using ex_eigh_length by (simp add: ex_ops_def)
  have h4: "\<forall>w v n. length (g_pick ?ops' w v n) \<le> n"
    by (simp add: ex_eig_ops_def pickeig_length_le[OF stable_argsort_ok])
  have d: "cycle_view (dgeev_cycle ?ops ?k (1 / 10 ^ 9) 0 ?s) = Inr (Break ConvergedDe, [0], [0])"
    by (simp add: run_defs cycle_view_def)
  have e: "cycle_view (eig_cycle ?ops' ?k (1 / 10 ^ 9) 0 ?s) = Inr (Break ConvergedResidual, [1], [1])"
    by (simp add: erun_defs cycle_view_def)
  from cycle_view_Inr[OF d] obtain t where t: "dgeev_cycle ?ops ?k (1 / 10 ^ 9) 0 ?s = Inr (Break ConvergedDe, t)"
    and te: "v_e t = [0]" by blast
  from cycle_view_Inr[OF e] obtain t' where t': "eig_cycle ?ops' ?k (1 / 10 ^ 9) 0 ?s = Inr (Break ConvergedResidual, t')"
    and te': "v_e t' = [1]" by blast
  note th = first_solve_deltas[OF h1 h2 h3 h4, where tlo = "1 / 10 ^ 9" and i = 0
      and fl = "Break ConvergedDe" and t = t and fl' = "Break ConvergedResidual" and t' = t']
  have c1: "\<bar>0 :: real\<bar> < k_tol ?k" using th t te by simp
  have c2: "\<not> \<bar>1 :: real\<bar> < k_tol ?k" using th t' te' by simp
  show ?thesis using h1 h2 h4 d e c1 c2 by (intro conjI)
qed



subsection \<open>The size of the subspace\<close>





















subsection \<open>Guess and images of different sizes\<close>
















subsection \<open>Leaving the loop for linear dependency\<close>

lemma np_sub_one_length:
  "np_sub x y = Inr d \<Longrightarrow> length y = 1 \<Longrightarrow> length d = length x"
  by (auto simp: np_sub_def np_binop_def split: if_splits)

lemma de_converged_nonempty: "de_converged k s = Inr conv \<Longrightarrow> v_de s \<noteq> []"
  by (auto simp: de_converged_def numpy_argmax_def bindE_eq_Inr split: if_splits)

lemma dgeev_cycle_single:
  assumes c: "dgeev_cycle ops k tlo i s = Inr (fl, t)" and n: "k_nroots k = 1"
  shows "v_e t \<noteq> [] \<and> v_x0 t \<noteq> []"
proof -
  from dgeev_cycle_stages[OF c] obtain s3 s4 s5 conv where
    4: "dgeev_solve ops k s3 = Inr s4" and 5: "dgeev_ritz ops k s4 = Inr s5"
    and 6: "de_converged k s5 = Inr conv" and lf: "late_frame s5 t" by blast
  from dgeev_solve_shape[OF 4] obtain w v de where
    de: "(if v_space s3 < k_nroots k \<or> length (v_e s3) \<noteq> k_nroots k
         then Inr (take (k_nroots k) w) else np_sub (take (k_nroots k) w) (v_e s3)) = Inr de"
    and s4: "s4 = s3\<lparr>v_w := w, v_v := v, v_de := de, v_e := take (k_nroots k) w\<rparr>" by blast
  note rf = ritz_frame_sel[OF dgeev_ritz_frame[OF 5]]
  have "v_de s5 \<noteq> []" using 6 by (rule de_converged_nonempty)
  then have dn: "de \<noteq> []" using rf s4 by simp
  have "length de = length (take (k_nroots k) w)"
    using de n by (auto split: if_splits dest: np_sub_one_length)
  then have "take (k_nroots k) w \<noteq> []" using dn by (cases "take (k_nroots k) w") auto
  then have "v_e s4 \<noteq> []" using s4 by simp
  then have "v_e s5 \<noteq> [] \<and> v_x0 s5 \<noteq> []" using rf by auto
  then show ?thesis using late_frame_sel[OF lf] by simp
qed

lemma eig_cycle_single:
  assumes c: "eig_cycle ops k tlo i s = Inr (fl, t)" and n: "k_nroots k = 1"
  shows "v_e t \<noteq> [] \<and> v_x0 t \<noteq> []"
proof -
  from eig_cycle_stages[OF c] obtain s3 s4 s5 conv where
    4: "eig_solve ops k s3 = Inr s4" and 5: "eig_ritz ops k s4 = Inr s5"
    and 6: "de_converged k s5 = Inr conv" and lf: "late_frame s5 t" by blast
  from eig_solve_shape[OF 4] obtain w v de vr where
    de: "(if length (g_pick ops w v (k_nroots k)) < k_nroots k \<or> length (v_e s3) \<noteq> k_nroots k
         then Inr (map (\<lambda>i. Re (w ! i)) (g_pick ops w v (k_nroots k)))
         else np_sub (map (\<lambda>i. Re (w ! i)) (g_pick ops w v (k_nroots k))) (v_e s3)) = Inr de"
    and s4: "s4 = s3\<lparr>v_v := vr, v_de := de, v_e := map (\<lambda>i. Re (w ! i)) (g_pick ops w v (k_nroots k))\<rparr>"
    by blast
  note rf = ritz_frame_sel[OF eig_ritz_frame[OF 5]]
  have "v_de s5 \<noteq> []" using 6 by (rule de_converged_nonempty)
  then have dn: "de \<noteq> []" using rf s4 by simp
  have "length de = length (map (\<lambda>i. Re (w ! i)) (g_pick ops w v (k_nroots k)))"
    using de n by (auto split: if_splits dest: np_sub_one_length)
  then have "v_e s4 \<noteq> []" using dn s4 by auto
  then have "v_e s5 \<noteq> [] \<and> v_x0 s5 \<noteq> []" using rf by auto
  then show ?thesis using late_frame_sel[OF lf] by simp
qed

lemma return_stmt_total:
  assumes "ncyc \<noteq> 0" and "k_nroots k = 1 \<longrightarrow> v_e t \<noteq> [] \<and> v_x0 t \<noteq> []"
  shows "return_stmt k ncyc t =
     Inr (if k_nroots k = 1 then Single (v_e t ! 0) (v_x0 t ! 0) else Multi (v_e t) (v_x0 t))"
  using assms by (auto simp: return_stmt_def nth_E_def)

text \<open>
  When the loop is left because no trial vector survived, \<^verbatim>\<open>eig\<close>, and \<^verbatim>\<open>dgeev\<close> for every
  \<^verbatim>\<open>type\<close> but 3, return the eigenvalues and Ritz vectors of that cycle in the usual shape.
\<close>

lemma lindep_exit_returns:
  "(dgeev_run ops g k = Inr (LinearDependency, ncyc, t) \<and> k_type k \<noteq> 3 \<longrightarrow>
      dgeev ops g k =
        Inr (if k_nroots k = 1 then Single (v_e t ! 0) (v_x0 t ! 0) else Multi (v_e t) (v_x0 t)))
   \<and> (eig_run ops' g k = Inr (LinearDependency, ncyc', t') \<longrightarrow>
      eig ops' g k =
        Inr (if k_nroots k = 1 then Single (v_e t' ! 0) (v_x0 t' ! 0) else Multi (v_e t') (v_x0 t')))"
proof (intro conjI impI)
  assume a: "dgeev_run ops g k = Inr (LinearDependency, ncyc, t) \<and> k_type k \<noteq> 3"
  then obtain xg k' ic tlo where pro: "prologue 3 g k = Inr (xg, k', ic)"
    and cyc: "cycles (dgeev_cycle ops k' tlo) (k_max_cycle k') 0
         (init_locals (d_memh ops) (d_mems ops) xg k' ic) = Inr (LinearDependency, ncyc, t)"
    unfolding dgeev_run_def by (auto simp: bindE_eq_Inr)
  have nz: "ncyc \<noteq> 0"
  proof
    assume "ncyc = 0"
    then have "cycles_begun (dgeev_cycle ops k' tlo) (k_max_cycle k') 0
         (init_locals (d_memh ops) (d_mems ops) xg k' ic) = 0" using cycles_count[OF cyc] by simp
    then show False using cyc
      by (cases "k_max_cycle k'") (auto split: sum.splits prod.splits flow.splits)
  qed
  from cycles_last[OF cyc nz] obtain j a' fl where "dgeev_cycle ops k' tlo j a' = Inr (fl, t)" by blast
  from dgeev_cycle_single[OF this] prologue_max_cycle[OF pro]
  have "k_nroots k = 1 \<longrightarrow> v_e t \<noteq> [] \<and> v_x0 t \<noteq> []" by simp
  from return_stmt_total[OF nz this] a
  show "dgeev ops g k =
        Inr (if k_nroots k = 1 then Single (v_e t ! 0) (v_x0 t ! 0) else Multi (v_e t) (v_x0 t))"
    by (simp add: dgeev_def dgeev_finish_def)
next
  assume a: "eig_run ops' g k = Inr (LinearDependency, ncyc', t')"
  then obtain xg k' ic tlo where pro: "prologue 2 g k = Inr (xg, k', ic)"
    and cyc: "cycles (eig_cycle ops' k' tlo) (k_max_cycle k') 0
         (init_locals (g_memh ops') (g_memh ops') xg k' ic) = Inr (LinearDependency, ncyc', t')"
    unfolding eig_run_def by (auto simp: bindE_eq_Inr split: if_splits)
  have nz: "ncyc' \<noteq> 0"
  proof
    assume "ncyc' = 0"
    then have "cycles_begun (eig_cycle ops' k' tlo) (k_max_cycle k') 0
         (init_locals (g_memh ops') (g_memh ops') xg k' ic) = 0" using cycles_count[OF cyc] by simp
    then show False using cyc
      by (cases "k_max_cycle k'") (auto split: sum.splits prod.splits flow.splits)
  qed
  from cycles_last[OF cyc nz] obtain j a' fl where "eig_cycle ops' k' tlo j a' = Inr (fl, t')" by blast
  from eig_cycle_single[OF this] prologue_max_cycle[OF pro]
  have "k_nroots k = 1 \<longrightarrow> v_e t' \<noteq> [] \<and> v_x0 t' \<noteq> []" by simp
  from return_stmt_total[OF nz this] a
  show "eig ops' g k =
        Inr (if k_nroots k = 1 then Single (v_e t' ! 0) (v_x0 t' ! 0) else Multi (v_e t') (v_x0 t'))"
    by (simp add: eig_def)
qed

text \<open>
  C5: when all trial vectors of a cycle are dropped the solver does not raise but returns
  the Ritz pairs found so far. The code breaks this for \<^verbatim>\<open>type == 3\<close>: after the loop it
  maps \<^verbatim>\<open>x0[k]\<close> for every \<open>k\<close> below \<^verbatim>\<open>nroots\<close>, and there may be fewer Ritz vectors than
  that. With one guess vector, two roots and a preconditioner that leads back into the
  basis, the loop is left for linear dependency in cycle 0 with one Ritz pair, and \<^verbatim>\<open>dgeev\<close>
  raises \<^verbatim>\<open>IndexError\<close>; the same call with \<^verbatim>\<open>type == 2\<close> returns that pair.
\<close>

theorem lindep_exit_type3_raises:
  "outcome (dgeev_run (ex_ops ex_abop_ones ex_precond_e1 None) (Array1 [1, 0])
        (default_kwargs\<lparr>k_type := 3, k_nroots := 2\<rparr>))
     = Inr (LinearDependency, 1, [1], [[1, 0]])
   \<and> dgeev (ex_ops ex_abop_ones ex_precond_e1 None) (Array1 [1, 0])
        (default_kwargs\<lparr>k_type := 3, k_nroots := 2\<rparr>) = Inl IndexError
   \<and> dgeev (ex_ops ex_abop_ones ex_precond_e1 None) (Array1 [1, 0])
        (default_kwargs\<lparr>k_type := 2, k_nroots := 2\<rparr>) = Inr (Multi [1] [[1, 0]])"
  by (simp add: run_defs)


end
